theory Spec2Isabelle
  imports Main "HOL-Library.Word"
begin

section \<open>Data model of the rollup driver\<close>

text \<open>
  The driver of \<^verbatim>\<open>components/node/rollup/driver/state.go\<close>. Go's \<^verbatim>\<open>uint64\<close> is a
  64-bit word (subtraction and increment wrap), \<^verbatim>\<open>common.Hash\<close> a 256-bit word,
  \<^verbatim>\<open>time.Duration\<close> an integer number of nanoseconds.
\<close>

type_synonym u64 = "64 word"
type_synonym hash = "256 word"
type_synonym duration = int

text \<open>\<^verbatim>\<open>eth.BlockID\<close>: hash and number.\<close>

type_synonym BlockID = "hash \<times> u64"

record L1BlockRef =
  l1Hash :: hash
  l1Number :: u64
  l1ParentHash :: hash
  l1Time :: u64

record L2BlockRef =
  l2Hash :: hash
  l2Number :: u64
  l2ParentHash :: hash
  l2Time :: u64
  l2L1Origin :: BlockID
  l2SequenceNumber :: u64

definition l2ID :: "L2BlockRef \<Rightarrow> BlockID" where
  "l2ID r = (l2Hash r, l2Number r)"

text \<open>The zero value \<^verbatim>\<open>eth.L1BlockRef{}\<close>.\<close>

definition zeroL1BlockRef :: L1BlockRef where
  "zeroL1BlockRef = \<lparr>l1Hash = 0, l1Number = 0, l1ParentHash = 0, l1Time = 0\<rparr>"

text \<open>An execution payload is opaque to the driver apart from its \<^verbatim>\<open>ID()\<close>.\<close>

record ExecutionPayload =
  payloadHash :: hash
  payloadNumber :: u64

text \<open>
  A buffered Go channel: the queued values and the capacity. A non-blocking send
  (\<^verbatim>\<open>select\<close> with a \<^verbatim>\<open>default\<close> branch) succeeds exactly when the buffer has room; the
  receiving goroutine is not part of this sequential model.
\<close>

record 'a chan =
  chanBuf :: "'a list"
  chanCap :: nat

definition trySend :: "'a \<Rightarrow> 'a chan \<Rightarrow> 'a chan option" where
  "trySend v c = (if length (chanBuf c) < chanCap c
                  then Some (c\<lparr>chanBuf := chanBuf c @ [v]\<rparr>) else None)"

section \<open>The backup-sync gap check\<close>

text \<open>
  \<^verbatim>\<open>wallClockGenesisDiff := wallClock - genesisTimestamp\<close> and
  \<^verbatim>\<open>expectedL2Block := wallClockGenesisDiff / s.config.BlockTime\<close>, on \<^verbatim>\<open>uint64\<close>. Go panics
  on an integer division by zero: \<open>None\<close>.
\<close>

definition wallClockGenesisDiff :: "u64 \<Rightarrow> u64 \<Rightarrow> u64" where
  "wallClockGenesisDiff wallClock genesisTimestamp = wallClock - genesisTimestamp"

definition expectedL2Block :: "u64 \<Rightarrow> u64 \<Rightarrow> u64 \<Rightarrow> u64 option" where
  "expectedL2Block wallClock genesisTimestamp blockTime =
     (if blockTime = 0 then None
      else Some (wallClockGenesisDiff wallClock genesisTimestamp div blockTime))"

text \<open>\<^verbatim>\<open>size := end - start\<close>, on \<^verbatim>\<open>uint64\<close>.\<close>

definition gapSize :: "u64 \<Rightarrow> u64 \<Rightarrow> u64" where
  "gapSize start end' = end' - start"

text \<open>
  \<^verbatim>\<open>for blockNumber := start; blockNumber <= end; blockNumber++\<close> with the non-blocking send
  on \<^verbatim>\<open>s.L2SyncCl.FetchUnsafeBlock\<close>; the \<^verbatim>\<open>default\<close> branch returns. The increment wraps.
\<close>

function fetchLoop :: "u64 \<Rightarrow> u64 \<Rightarrow> u64 chan \<Rightarrow> u64 chan" where
  "fetchLoop blockNumber end' c =
     (if blockNumber \<le> end'
      then (case trySend blockNumber c of
              Some c' \<Rightarrow> fetchLoop (blockNumber + 1) end' c'
            | None \<Rightarrow> c)
      else c)"
  by pat_completeness auto
termination
  by (relation "measure (\<lambda>(b, e, c). chanCap c - length (chanBuf c))")
     (auto simp: trySend_def split: if_splits)

declare fetchLoop.simps [simp del]

section \<open>Errors, logs, metrics and configuration\<close>

text \<open>
  \<^verbatim>\<open>errors.New(msg)\<close> is \<open>ErrorsNew msg\<close>; the \<^verbatim>\<open>fmt.Errorf\<close> of the start-proposer case
  keeps its two hashes (head, received); \<open>ContextErr\<close> is \<^verbatim>\<open>ctx.Err()\<close>.
\<close>

datatype error = ErrorsNew string | BlockHashMismatch hash hash | ContextErr

text \<open>
  The error of \<^verbatim>\<open>derivation.Step\<close>, by the first branch of the loop's classification chain
  that it matches: \<^verbatim>\<open>err == io.EOF\<close>, then \<^verbatim>\<open>errors.Is\<close> against \<^verbatim>\<open>derive.ErrReset\<close>,
  \<^verbatim>\<open>derive.ErrTemporary\<close>, \<^verbatim>\<open>derive.ErrCritical\<close>, \<^verbatim>\<open>derive.NotEnoughData\<close>, then any other
  non-nil error. \<open>None\<close> is the nil error.
\<close>

datatype step_error = EOF | ErrReset | ErrTemporary | ErrCritical | NotEnoughData | ErrOther

datatype level = LvlDebug | LvlInfo | LvlWarn | LvlError

type_synonym log_entry = "level \<times> string"

datatype metric =
    SetDerivationIdle bool
  | RecordPipelineReset
  | RecordPublishingError
  | RecordReceivedUnsafePayload ExecutionPayload

text \<open>
  \<^verbatim>\<open>rollup.Config\<close> with the fields that \<^verbatim>\<open>randConfig\<close> of \<^verbatim>\<open>types_test.go\<close> fills in. The
  chain ids are \<^verbatim>\<open>*big.Int\<close>: \<open>None\<close> is the nil pointer.
\<close>

type_synonym address = "160 word"

record SystemConfig =
  BatcherAddr :: address
  Overhead :: "256 word"
  Scalar :: "256 word"
  GasLimit :: u64

record Genesis =
  GenesisL1 :: BlockID
  GenesisL2 :: BlockID
  L2Time :: u64
  GenesisSystemConfig :: SystemConfig

record RollupConfig =
  ConfigGenesis :: Genesis
  BlockTime :: u64
  MaxProposerDrift :: u64
  ProposerWindowSize :: u64
  ChannelTimeout :: u64
  L1ChainID :: "int option"
  L2ChainID :: "int option"
  BatchInboxAddress :: address
  DepositContractAddress :: address
  L1SystemConfigAddress :: address

record DriverConfig =
  ProposerEnabled :: bool
  ProposerStopped :: bool

record SyncClient =
  FetchUnsafeBlock :: "u64 chan"

text \<open>
  A \<^verbatim>\<open>time.Timer\<close>: the number of ticks buffered in its channel \<^verbatim>\<open>C\<close> and, while it is
  running, the delay it was last set to.
\<close>

record Timer =
  timerTicks :: nat
  timerArmed :: "duration option"

section \<open>Collaborators\<close>

text \<open>
  The derivation pipeline (state \<open>'d\<close>), the proposer (\<open>'p\<close>), the network (\<open>'n\<close>) and the
  L1 state (\<open>'l\<close>) are Go interfaces: each is an opaque state with the methods the loop
  calls on it. A method that may mutate its receiver returns the new state; the accessors
  (\<^verbatim>\<open>EngineReady\<close>, \<^verbatim>\<open>UnsafeL2Head\<close>, \<^verbatim>\<open>GetUnsafeQueueGap\<close>, \<^verbatim>\<open>BuildingOnto\<close>, \<^verbatim>\<open>L1Head\<close>) only
  read it. Each collaborator has a state of its own: a method changes the state of its
  receiver and of nothing else. \<open>BackoffDuration\<close> is \<^verbatim>\<open>bOffStrategy.Duration\<close> of
  \<^verbatim>\<open>backoff.Exponential()\<close>, a package that is not among the sources: any function of the
  attempt count.
\<close>

record ('d, 'p, 'n, 'l) Ifaces =
  Step :: "'d \<Rightarrow> step_error option \<times> 'd"
  Reset :: "'d \<Rightarrow> 'd"
  AddUnsafePayload :: "ExecutionPayload \<Rightarrow> 'd \<Rightarrow> 'd"
  Finalize :: "L1BlockRef \<Rightarrow> 'd \<Rightarrow> 'd"
  EngineReady :: "'d \<Rightarrow> bool"
  UnsafeL2Head :: "'d \<Rightarrow> L2BlockRef"
  GetUnsafeQueueGap :: "'d \<Rightarrow> u64 \<Rightarrow> u64 \<times> u64"
  BuildingOnto :: "'p \<Rightarrow> L2BlockRef"
  PlanNextProposerAction :: "'p \<Rightarrow> duration \<times> 'p"
  RunNextProposerAction :: "'p \<Rightarrow> (ExecutionPayload option \<times> error option) \<times> 'p"
  PublishL2Payload :: "ExecutionPayload \<Rightarrow> 'n \<Rightarrow> error option \<times> 'n"
  L1Head :: "'l \<Rightarrow> L1BlockRef"
  HandleNewL1HeadBlock :: "L1BlockRef \<Rightarrow> 'l \<Rightarrow> 'l"
  HandleNewL1SafeBlock :: "L1BlockRef \<Rightarrow> 'l \<Rightarrow> 'l"
  HandleNewL1FinalizedBlock :: "L1BlockRef \<Rightarrow> 'l \<Rightarrow> 'l"
  BackoffDuration :: "int \<Rightarrow> duration"

section \<open>The driver and the locals of its event loop\<close>

text \<open>
  The fields of \<^verbatim>\<open>Driver\<close> that the loop touches, followed by the local variables of
  \<^verbatim>\<open>eventLoop\<close>. \<open>network\<close> and \<open>L2SyncCl\<close> may be nil. \<open>metrics\<close> and the two loggers
  record the calls made on them. \<open>stepReqCh\<close> is made with capacity 1;
  \<open>delayedStepReq\<close> is \<open>None\<close> for the nil channel and otherwise holds the delay
  given to \<^verbatim>\<open>time.After\<close>; \<open>afterTimers\<close> lists the timers created by \<^verbatim>\<open>time.After\<close> that
  have not fired yet; \<open>proposerCh\<close> is \<open>False\<close> for the nil channel and \<open>True\<close> for
  \<^verbatim>\<open>proposerTimer.C\<close>. \<open>stepAttempts\<close> is a Go \<^verbatim>\<open>int\<close>; it is an unbounded integer here,
  the loop being far from \<open>2^63\<close> consecutive failures. A log entry keeps the level and
  the message, not the key-value context.
\<close>

record ('d, 'p, 'n, 'l) Driver =
  l1State :: 'l
  derivation :: 'd
  config :: RollupConfig
  driverConfig :: DriverConfig
  L2SyncCl :: "SyncClient option"
  proposer :: 'p
  network :: "'n option"
  metrics :: "metric list"
  log :: "log_entry list"
  snapshotLog :: "log_entry list"
  stepReqCh :: "unit chan"
  delayedStepReq :: "duration option"
  afterTimers :: "duration list"
  stepAttempts :: int
  proposerTimer :: Timer
  proposerCh :: bool

text \<open>The cases of the loop's \<^verbatim>\<open>select\<close>, with the value received.\<close>

datatype event =
    ProposerTick
  | AltSyncTick u64
  | UnsafeL2PayloadSig ExecutionPayload
  | L1HeadSig L1BlockRef
  | L1SafeSig L1BlockRef
  | L1FinalizedSig L1BlockRef
  | DelayedStepFired
  | StepReq
  | StateReq
  | ForceReset
  | StartProposerReq hash
  | StopProposerReq
  | Done

text \<open>
  What the loop puts on the response channel it received: a value sent, or the channel
  closed. \<open>StopProposerResp\<close> is the \<^verbatim>\<open>hashAndError\<close> struct.
\<close>

datatype reply =
    StateAck
  | ResetClosed
  | StartProposerErr error
  | StartProposerClosed
  | StopProposerResp hash "error option"

text \<open>
  One pass through the body of the \<^verbatim>\<open>for\<close> loop: the loop goes round again, the function
  returns, or the goroutine panics.
\<close>

datatype ('s) outcome = Continue 's "reply option" | Return 's | Panic

definition logf :: "level \<Rightarrow> string \<Rightarrow> ('d, 'p, 'n, 'l) Driver \<Rightarrow> ('d, 'p, 'n, 'l) Driver" where
  "logf lv msg s = s\<lparr>log := log s @ [(lv, msg)]\<rparr>"

definition meter :: "metric \<Rightarrow> ('d, 'p, 'n, 'l) Driver \<Rightarrow> ('d, 'p, 'n, 'l) Driver" where
  "meter m s = s\<lparr>metrics := metrics s @ [m]\<rparr>"

text \<open>\<^verbatim>\<open>step\<close>: the non-blocking send on \<^verbatim>\<open>stepReqCh\<close>.\<close>

definition step :: "('d, 'p, 'n, 'l) Driver \<Rightarrow> ('d, 'p, 'n, 'l) Driver" where
  "step s = (case trySend () (stepReqCh s) of
               Some c \<Rightarrow> s\<lparr>stepReqCh := c\<rparr>
             | None \<Rightarrow> s)"

text \<open>\<^verbatim>\<open>reqStep\<close>.\<close>

definition reqStep ::
  "('d, 'p, 'n, 'l) Ifaces \<Rightarrow> ('d, 'p, 'n, 'l) Driver \<Rightarrow> ('d, 'p, 'n, 'l) Driver" where
  "reqStep I s =
     (if stepAttempts s > 0 then
        (if delayedStepReq s = None then
           (let delay = BackoffDuration I (stepAttempts s);
                s1 = logf LvlDebug ''scheduling re-attempt with delay'' s
            in s1\<lparr>delayedStepReq := Some delay, afterTimers := afterTimers s1 @ [delay]\<rparr>)
         else
           logf LvlDebug
             ''ignoring step request, already scheduled re-attempt after previous failure'' s)
      else step s)"

text \<open>
  \<^verbatim>\<open>planProposerAction\<close>: ask the proposer for the delay, point \<^verbatim>\<open>proposerCh\<close> at the
  timer's channel, drain a tick that is still buffered, reset the timer.
\<close>

definition planProposerAction ::
  "('d, 'p, 'n, 'l) Ifaces \<Rightarrow> ('d, 'p, 'n, 'l) Driver \<Rightarrow> ('d, 'p, 'n, 'l) Driver" where
  "planProposerAction I s =
     (case PlanNextProposerAction I (proposer s) of (delay, p') \<Rightarrow>
        (let t = proposerTimer s;
             t1 = (if timerTicks t > 0 then t\<lparr>timerTicks := timerTicks t - 1\<rparr> else t)
         in s\<lparr>proposer := p', proposerCh := True,
               proposerTimer := t1\<lparr>timerArmed := Some delay\<rparr>\<rparr>))"

text \<open>The top of the loop body, before the \<^verbatim>\<open>select\<close>.\<close>

definition proposerEligible ::
  "('d, 'p, 'n, 'l) Ifaces \<Rightarrow> ('d, 'p, 'n, 'l) Driver \<Rightarrow> bool" where
  "proposerEligible I s \<longleftrightarrow>
     ProposerEnabled (driverConfig s) \<and> \<not> ProposerStopped (driverConfig s) \<and>
     L1Head I (l1State s) \<noteq> zeroL1BlockRef \<and> EngineReady I (derivation s)"

definition prelude ::
  "('d, 'p, 'n, 'l) Ifaces \<Rightarrow> ('d, 'p, 'n, 'l) Driver \<Rightarrow> ('d, 'p, 'n, 'l) Driver" where
  "prelude I s =
     (if proposerEligible I s then
        (if l2ID (BuildingOnto I (proposer s)) \<noteq> l2ID (UnsafeL2Head I (derivation s))
         then planProposerAction I s else s)
      else s\<lparr>proposerCh := False\<rparr>)"

section \<open>The cases of the select\<close>

text \<open>
  \<^verbatim>\<open>checkForGapInUnsafeQueue\<close>, given the wall clock \<^verbatim>\<open>uint64(time.Now().Unix())\<close>. \<open>None\<close> is
  a panic: the division by a zero block time, or the dereference of a nil
  \<^verbatim>\<open>s.L2SyncCl\<close> when the loop body is reached.
\<close>

definition checkForGapInUnsafeQueue ::
  "('d, 'p, 'n, 'l) Ifaces \<Rightarrow> u64 \<Rightarrow> ('d, 'p, 'n, 'l) Driver \<Rightarrow> ('d, 'p, 'n, 'l) Driver option" where
  "checkForGapInUnsafeQueue I wallClock s =
     (case expectedL2Block wallClock (L2Time (ConfigGenesis (config s))) (BlockTime (config s)) of
        None \<Rightarrow> None
      | Some expected \<Rightarrow>
          (case GetUnsafeQueueGap I (derivation s) expected of (start, end') \<Rightarrow>
             if gapSize start end' > 0 then
               (let s1 = logf LvlInfo ''Attempting to fetch missing payloads from backup RPC''
                           (logf LvlWarn
                              ''Gap in payload queue tip and expected unsafe chain detected'' s)
                in case L2SyncCl s1 of
                     None \<Rightarrow> if start \<le> end' then None else Some s1
                   | Some cl \<Rightarrow>
                       Some (s1\<lparr>L2SyncCl :=
                                 Some (cl\<lparr>FetchUnsafeBlock :=
                                            fetchLoop start end' (FetchUnsafeBlock cl)\<rparr>)\<rparr>))
             else Some s))"

text \<open>\<^verbatim>\<open>case <-proposerCh\<close>, after the tick has been received.\<close>

definition publish ::
  "('d, 'p, 'n, 'l) Ifaces \<Rightarrow> ExecutionPayload option \<Rightarrow> ('d, 'p, 'n, 'l) Driver \<Rightarrow>
     ('d, 'p, 'n, 'l) Driver" where
  "publish I payload s =
     (case (network s, payload) of
        (Some n, Some pl) \<Rightarrow>
          (case PublishL2Payload I pl n of (perr, n') \<Rightarrow>
             (let s1 = s\<lparr>network := Some n'\<rparr>
              in case perr of
                   Some e \<Rightarrow> meter RecordPublishingError
                               (logf LvlWarn ''failed to publish newly created block'' s1)
                 | None \<Rightarrow> s1))
      | _ \<Rightarrow> s)"

definition recvProposerTick :: "('d, 'p, 'n, 'l) Driver \<Rightarrow> ('d, 'p, 'n, 'l) Driver" where
  "recvProposerTick s =
     (let t = proposerTimer s
      in s\<lparr>proposerTimer :=
             (if timerTicks t > 0 then t\<lparr>timerTicks := timerTicks t - 1\<rparr>
              else t\<lparr>timerArmed := None\<rparr>)\<rparr>)"

definition onProposerTick ::
  "('d, 'p, 'n, 'l) Ifaces \<Rightarrow> ('d, 'p, 'n, 'l) Driver \<Rightarrow> ('d, 'p, 'n, 'l) Driver outcome" where
  "onProposerTick I s =
     (case RunNextProposerAction I (proposer s) of ((payload, err), p') \<Rightarrow>
        (let s1 = s\<lparr>proposer := p'\<rparr>
         in case err of
              Some e \<Rightarrow> Return (logf LvlError ''Sequencer critical error'' s1)
            | None \<Rightarrow> Continue (planProposerAction I (publish I payload s1)) None))"

text \<open>\<^verbatim>\<open>case <-stepReqCh\<close>, after the request has been received.\<close>

definition recvStepReq :: "('d, 'p, 'n, 'l) Driver \<Rightarrow> ('d, 'p, 'n, 'l) Driver" where
  "recvStepReq s = s\<lparr>stepReqCh := (stepReqCh s)\<lparr>chanBuf := tl (chanBuf (stepReqCh s))\<rparr>\<rparr>"

definition onStepReq ::
  "('d, 'p, 'n, 'l) Ifaces \<Rightarrow> ('d, 'p, 'n, 'l) Driver \<Rightarrow> ('d, 'p, 'n, 'l) Driver outcome" where
  "onStepReq I s =
     (let s1 = logf LvlDebug ''Derivation process step'' (meter (SetDerivationIdle False) s)
      in case Step I (derivation s1) of (err, d') \<Rightarrow>
        (let s2 = s1\<lparr>derivation := d', stepAttempts := stepAttempts s1 + 1\<rparr>
         in case err of
              Some EOF \<Rightarrow>
                Continue (meter (SetDerivationIdle True)
                           ((logf LvlDebug ''Derivation process went idle'' s2)
                              \<lparr>stepAttempts := 0\<rparr>)) None
            | Some ErrReset \<Rightarrow>
                (let s3 = logf LvlWarn ''Derivation pipeline is reset'' s2
                 in Continue (meter RecordPipelineReset
                               (s3\<lparr>derivation := Reset I (derivation s3)\<rparr>)) None)
            | Some ErrTemporary \<Rightarrow>
                Continue (reqStep I (logf LvlWarn ''Derivation process temporary error'' s2)) None
            | Some ErrCritical \<Rightarrow>
                Return (logf LvlError ''Derivation process critical error'' s2)
            | Some NotEnoughData \<Rightarrow>
                Continue (reqStep I (s2\<lparr>stepAttempts := 0\<rparr>)) None
            | Some ErrOther \<Rightarrow>
                Continue (reqStep I (logf LvlError ''Derivation process error'' s2)) None
            | None \<Rightarrow>
                Continue (reqStep I (s2\<lparr>stepAttempts := 0\<rparr>)) None))"

text \<open>\<^verbatim>\<open>case <-delayedStepReq\<close>: the timer of \<^verbatim>\<open>time.After\<close> has fired and is gone.\<close>

definition onDelayedStep :: "('d, 'p, 'n, 'l) Driver \<Rightarrow> ('d, 'p, 'n, 'l) Driver" where
  "onDelayedStep s =
     step (s\<lparr>afterTimers := (case delayedStepReq s of
                                None \<Rightarrow> afterTimers s
                              | Some d \<Rightarrow> remove1 d (afterTimers s)),
             delayedStepReq := None\<rparr>)"

text \<open>\<^verbatim>\<open>case respCh := <-s.forceReset\<close>.\<close>

definition onForceReset ::
  "('d, 'p, 'n, 'l) Ifaces \<Rightarrow> ('d, 'p, 'n, 'l) Driver \<Rightarrow> ('d, 'p, 'n, 'l) Driver outcome" where
  "onForceReset I s =
     (let s1 = logf LvlWarn ''Derivation pipeline is manually reset'' s
      in Continue (meter RecordPipelineReset (s1\<lparr>derivation := Reset I (derivation s1)\<rparr>))
           (Some ResetClosed))"

text \<open>\<^verbatim>\<open>case resp := <-s.startProposer\<close>.\<close>

definition onStartProposer ::
  "('d, 'p, 'n, 'l) Ifaces \<Rightarrow> hash \<Rightarrow> ('d, 'p, 'n, 'l) Driver \<Rightarrow>
     ('d, 'p, 'n, 'l) Driver outcome" where
  "onStartProposer I h s =
     (let unsafeHead = l2Hash (UnsafeL2Head I (derivation s))
      in if \<not> ProposerStopped (driverConfig s) then
           Continue s (Some (StartProposerErr (ErrorsNew ''proposer already running'')))
         else if unsafeHead \<noteq> h then
           Continue s (Some (StartProposerErr (BlockHashMismatch unsafeHead h)))
         else
           (let s1 = logf LvlInfo ''Proposer has been started'' s;
                s2 = s1\<lparr>driverConfig := (driverConfig s1)\<lparr>ProposerStopped := False\<rparr>\<rparr>
            in Continue (planProposerAction I s2) (Some StartProposerClosed)))"

text \<open>\<^verbatim>\<open>case respCh := <-s.stopProposer\<close>.\<close>

definition onStopProposer ::
  "('d, 'p, 'n, 'l) Ifaces \<Rightarrow> ('d, 'p, 'n, 'l) Driver \<Rightarrow> ('d, 'p, 'n, 'l) Driver outcome" where
  "onStopProposer I s =
     (if ProposerStopped (driverConfig s) then
        Continue s (Some (StopProposerResp 0 (Some (ErrorsNew ''proposer not running''))))
      else
        (let s1 = logf LvlWarn ''Proposer has been stopped'' s;
             s2 = s1\<lparr>driverConfig := (driverConfig s1)\<lparr>ProposerStopped := True\<rparr>\<rparr>
         in Continue s2 (Some (StopProposerResp (l2Hash (UnsafeL2Head I (derivation s2))) None))))"

text \<open>The body of the case that the \<^verbatim>\<open>select\<close> has taken.\<close>

fun handle ::
  "('d, 'p, 'n, 'l) Ifaces \<Rightarrow> ('d, 'p, 'n, 'l) Driver \<Rightarrow> event \<Rightarrow>
     ('d, 'p, 'n, 'l) Driver outcome" where
  "handle I s ProposerTick = onProposerTick I (recvProposerTick s)"
| "handle I s (AltSyncTick wallClock) =
     (if L2SyncCl s \<noteq> None then
        (case checkForGapInUnsafeQueue I wallClock s of
           None \<Rightarrow> Panic
         | Some s' \<Rightarrow> Continue s' None)
      else Continue s None)"
| "handle I s (UnsafeL2PayloadSig payload) =
     (let s1 = s\<lparr>snapshotLog := snapshotLog s @ [(LvlInfo, ''Rollup State Snapshot'')]\<rparr>;
          s2 = logf LvlInfo ''Optimistically queueing unsafe L2 execution payload'' s1;
          s3 = s2\<lparr>derivation := AddUnsafePayload I payload (derivation s2)\<rparr>
      in Continue (reqStep I (meter (RecordReceivedUnsafePayload payload) s3)) None)"
| "handle I s (L1HeadSig newL1Head) =
     Continue (reqStep I (s\<lparr>l1State := HandleNewL1HeadBlock I newL1Head (l1State s)\<rparr>)) None"
| "handle I s (L1SafeSig newL1Safe) =
     Continue (s\<lparr>l1State := HandleNewL1SafeBlock I newL1Safe (l1State s)\<rparr>) None"
| "handle I s (L1FinalizedSig newL1Finalized) =
     Continue (reqStep I
       (s\<lparr>l1State := HandleNewL1FinalizedBlock I newL1Finalized (l1State s),
           derivation := Finalize I newL1Finalized (derivation s)\<rparr>)) None"
| "handle I s DelayedStepFired = Continue (onDelayedStep s) None"
| "handle I s StepReq = onStepReq I (recvStepReq s)"
| "handle I s StateReq = Continue s (Some StateAck)"
| "handle I s ForceReset = onForceReset I s"
| "handle I s (StartProposerReq h) = onStartProposer I h s"
| "handle I s StopProposerReq = onStopProposer I s"
| "handle I s Done = Return s"

text \<open>Whether the \<^verbatim>\<open>select\<close> can take a case: a nil or empty channel never fires.\<close>

fun ready :: "('d, 'p, 'n, 'l) Driver \<Rightarrow> event \<Rightarrow> bool" where
  "ready s ProposerTick \<longleftrightarrow>
     proposerCh s \<and> (timerTicks (proposerTimer s) > 0 \<or> timerArmed (proposerTimer s) \<noteq> None)"
| "ready s DelayedStepFired \<longleftrightarrow> delayedStepReq s \<noteq> None"
| "ready s StepReq \<longleftrightarrow> chanBuf (stepReqCh s) \<noteq> []"
| "ready s _ \<longleftrightarrow> True"

text \<open>One pass through the loop body; \<open>None\<close> when the case cannot be taken.\<close>

definition iteration ::
  "('d, 'p, 'n, 'l) Ifaces \<Rightarrow> ('d, 'p, 'n, 'l) Driver \<Rightarrow> event \<Rightarrow>
     ('d, 'p, 'n, 'l) Driver outcome option" where
  "iteration I s ev =
     (let s1 = prelude I s in if ready s1 ev then Some (handle I s1 ev) else None)"

text \<open>The loop over a sequence of selected cases.\<close>

fun runLoop ::
  "('d, 'p, 'n, 'l) Ifaces \<Rightarrow> ('d, 'p, 'n, 'l) Driver \<Rightarrow> event list \<Rightarrow>
     ('d, 'p, 'n, 'l) Driver outcome option" where
  "runLoop I s [] = Some (Continue s None)"
| "runLoop I s (ev # evs) =
     (case iteration I s ev of
        None \<Rightarrow> None
      | Some (Continue s' r) \<Rightarrow> runLoop I s' evs
      | Some (Return s') \<Rightarrow> Some (Return s')
      | Some Panic \<Rightarrow> Some Panic)"

text \<open>
  The start of \<^verbatim>\<open>eventLoop\<close>, up to the \<^verbatim>\<open>for\<close>: the locals are initialised and the
  first step is requested.
\<close>

definition eventLoopInit ::
  "('d, 'p, 'n, 'l) Ifaces \<Rightarrow> ('d, 'p, 'n, 'l) Driver \<Rightarrow> ('d, 'p, 'n, 'l) Driver" where
  "eventLoopInit I s =
     (reqStep I ((logf LvlInfo ''State loop started'' s)
        \<lparr>stepReqCh := \<lparr>chanBuf = [], chanCap = 1\<rparr>, delayedStepReq := None,
         afterTimers := [], stepAttempts := 0\<rparr>))
       \<lparr>proposerTimer := \<lparr>timerTicks = 0, timerArmed = Some 0\<rparr>, proposerCh := False\<rparr>"

section \<open>The public control API\<close>

text \<open>
  A call either returns without reaching the loop or hands its request to the loop.
  \<open>ctxDone\<close> says that the \<^verbatim>\<open>select\<close> of the call took \<^verbatim>\<open>ctx.Done()\<close>.
\<close>

datatype 'a api = Returned 'a | Sent event


definition StopProposer ::
  "bool \<Rightarrow> ('d, 'p, 'n, 'l) Driver \<Rightarrow> (hash \<times> error option) api" where
  "StopProposer ctxDone s =
     (if \<not> ProposerEnabled (driverConfig s) then
        Returned (0, Some (ErrorsNew ''proposer is not enabled''))
      else if ctxDone then Returned (0, Some ContextErr)
      else Sent StopProposerReq)"


section \<open>Scripted collaborators\<close>

text \<open>
  Test doubles for the four interfaces, for running the loop on concrete inputs: a
  pipeline whose \<^verbatim>\<open>Step\<close> plays a script of results (and reports idle once the script is
  used up) and counts its resets, a proposer whose actions play a script, a network
  whose publish results play a script, and an L1 state that keeps the last head.
\<close>

record MockPipeline =
  stepScript :: "step_error option list"
  resetCount :: nat
  unsafeHead :: L2BlockRef
  engineReady :: bool
  queueGap :: "u64 \<times> u64"
  queued :: "ExecutionPayload list"

record MockProposer =
  buildingOnto :: L2BlockRef
  planDelay :: duration
  runScript :: "(ExecutionPayload option \<times> error option) list"

definition mockIfaces :: "(MockPipeline, MockProposer, error option list, L1BlockRef) Ifaces" where
  "mockIfaces =
     \<lparr>Step = (\<lambda>d. case stepScript d of
                      [] \<Rightarrow> (Some EOF, d)
                    | r # rs \<Rightarrow> (r, d\<lparr>stepScript := rs\<rparr>)),
      Reset = (\<lambda>d. d\<lparr>resetCount := resetCount d + 1\<rparr>),
      AddUnsafePayload = (\<lambda>p d. d\<lparr>queued := queued d @ [p]\<rparr>),
      Finalize = (\<lambda>r d. d),
      EngineReady = engineReady,
      UnsafeL2Head = unsafeHead,
      GetUnsafeQueueGap = (\<lambda>d expected. queueGap d),
      BuildingOnto = buildingOnto,
      PlanNextProposerAction = (\<lambda>p. (planDelay p, p)),
      RunNextProposerAction = (\<lambda>p. case runScript p of
                                       [] \<Rightarrow> ((None, None), p)
                                     | r # rs \<Rightarrow> (r, p\<lparr>runScript := rs\<rparr>)),
      PublishL2Payload = (\<lambda>pl n. case n of [] \<Rightarrow> (None, []) | r # rs \<Rightarrow> (r, rs)),
      L1Head = (\<lambda>l. l),
      HandleNewL1HeadBlock = (\<lambda>r l. r),
      HandleNewL1SafeBlock = (\<lambda>r l. l),
      HandleNewL1FinalizedBlock = (\<lambda>r l. l),
      BackoffDuration = (\<lambda>n. 50 * 2 ^ nat n)\<rparr>"

definition mockL2 :: "hash \<Rightarrow> u64 \<Rightarrow> L2BlockRef" where
  "mockL2 h n = \<lparr>l2Hash = h, l2Number = n, l2ParentHash = 0, l2Time = 0,
                 l2L1Origin = (0, 0), l2SequenceNumber = 0\<rparr>"

definition mockConfig :: RollupConfig where
  "mockConfig =
     \<lparr>ConfigGenesis = \<lparr>GenesisL1 = (1, 424242), GenesisL2 = (2, 1337), L2Time = 1000,
        GenesisSystemConfig = \<lparr>BatcherAddr = 3, Overhead = 4, Scalar = 5, GasLimit = 1234567\<rparr>\<rparr>,
      BlockTime = 2, MaxProposerDrift = 100, ProposerWindowSize = 2, ChannelTimeout = 123,
      L1ChainID = Some 900, L2ChainID = Some 901, BatchInboxAddress = 6,
      DepositContractAddress = 7, L1SystemConfigAddress = 8\<rparr>"

text \<open>
  A driver over the scripted collaborators, just after \<^verbatim>\<open>eventLoop\<close> has initialised its
  locals: an L1 head has been seen, the proposer is enabled, stopped or not, and builds
  onto block \<open>2\<close>, the unsafe head has hash \<open>7\<close> and number \<open>3\<close>, and the request channel
  of the backup client holds \<open>cap\<close> numbers.
\<close>

definition mockFields ::
  "bool \<Rightarrow> step_error option list \<Rightarrow> (ExecutionPayload option \<times> error option) list \<Rightarrow>
   error option list \<Rightarrow> u64 \<times> u64 \<Rightarrow> nat \<Rightarrow>
   (MockPipeline, MockProposer, error option list, L1BlockRef) Driver" where
  "mockFields stopped steps runs pubs gap cap =
     \<lparr>l1State = zeroL1BlockRef\<lparr>l1Hash := 1, l1Number := 1\<rparr>,
      derivation = \<lparr>stepScript = steps, resetCount = 0, unsafeHead = mockL2 7 3,
                    engineReady = True, queueGap = gap, queued = []\<rparr>,
      config = mockConfig,
      driverConfig = \<lparr>ProposerEnabled = True, ProposerStopped = stopped\<rparr>,
      L2SyncCl = Some \<lparr>FetchUnsafeBlock = \<lparr>chanBuf = [], chanCap = cap\<rparr>\<rparr>,
      proposer = \<lparr>buildingOnto = mockL2 6 2, planDelay = 2000, runScript = runs\<rparr>,
      network = Some pubs,
      metrics = [], log = [], snapshotLog = [],
      stepReqCh = \<lparr>chanBuf = [], chanCap = 0\<rparr>, delayedStepReq = None, afterTimers = [],
      stepAttempts = 0, proposerTimer = \<lparr>timerTicks = 0, timerArmed = None\<rparr>,
      proposerCh = False\<rparr>"

definition mockDriver ::
  "bool \<Rightarrow> step_error option list \<Rightarrow> (ExecutionPayload option \<times> error option) list \<Rightarrow>
   error option list \<Rightarrow> u64 \<times> u64 \<Rightarrow> nat \<Rightarrow>
   (MockPipeline, MockProposer, error option list, L1BlockRef) Driver" where
  "mockDriver stopped steps runs pubs gap cap =
     eventLoopInit mockIfaces (mockFields stopped steps runs pubs gap cap)"

section \<open>Configuration validation\<close>




section \<open>Observations on a run\<close>

text \<open>The driver state in which a run of the loop has arrived, if it has not panicked.\<close>

fun outcomeState :: "'s outcome option \<Rightarrow> 's option" where
  "outcomeState (Some (Continue s r)) = Some s"
| "outcomeState (Some (Return s)) = Some s"
| "outcomeState (Some Panic) = None"
| "outcomeState None = None"

text \<open>The results that \<^verbatim>\<open>derivation.Step\<close> returned during a run, in order.\<close>

fun stepResults ::
  "('d, 'p, 'n, 'l) Ifaces \<Rightarrow> ('d, 'p, 'n, 'l) Driver \<Rightarrow> event list \<Rightarrow>
     step_error option list" where
  "stepResults I s [] = []"
| "stepResults I s (ev # evs) =
     (let here = (if ev = StepReq \<and> ready (prelude I s) StepReq
                  then [fst (Step I (derivation (prelude I s)))] else [])
      in case iteration I s ev of
           Some (Continue s' r) \<Rightarrow> here @ stepResults I s' evs
         | _ \<Rightarrow> here)"

text \<open>
  The step-request discipline: the timers of \<^verbatim>\<open>time.After\<close> still running are exactly the
  one behind \<open>delayedStepReq\<close>, if any, and the request channel has capacity 1 and holds
  at most one request.
\<close>

definition stepInv :: "('d, 'p, 'n, 'l) Driver \<Rightarrow> bool" where
  "stepInv s \<longleftrightarrow>
     afterTimers s = (case delayedStepReq s of None \<Rightarrow> [] | Some d \<Rightarrow> [d]) \<and>
     chanCap (stepReqCh s) = 1 \<and> length (chanBuf (stepReqCh s)) \<le> 1"

text \<open>No failed attempt is counted and no delayed step is scheduled.\<close>

definition calm :: "('d, 'p, 'n, 'l) Driver \<Rightarrow> bool" where
  "calm s \<longleftrightarrow> stepAttempts s = 0 \<and> delayedStepReq s = None \<and> afterTimers s = []"

text \<open>The results of \<^verbatim>\<open>Step\<close> that are no failure: success, \<^verbatim>\<open>io.EOF\<close>, \<^verbatim>\<open>NotEnoughData\<close>.\<close>

definition benign :: "step_error option \<Rightarrow> bool" where
  "benign r \<longleftrightarrow> r = None \<or> r = Some EOF \<or> r = Some NotEnoughData"


section \<open>Wrap-around in the gap check\<close>

lemma uint_sub_u64: "uint ((a::u64) - b) = (uint a - uint b) mod 2 ^ 64"
  by (simp add: uint_word_ariths)

lemma neg_mod_2p64:
  fixes x :: int
  assumes "x < 0" "- (2 ^ 64) \<le> x"
  shows "x mod 2 ^ 64 = x + 2 ^ 64"
proof -
  have "(x + 2 ^ 64) mod 2 ^ 64 = x + 2 ^ 64"
    using assms by (intro mod_pos_pos_trivial) auto
  moreover have "(x + 2 ^ 64) mod 2 ^ 64 = x mod 2 ^ 64" by simp
  ultimately show ?thesis by simp
qed

lemma uint_sub_u64_less:
  assumes "(a::u64) < b"
  shows "uint (a - b) = uint a - uint b + 2 ^ 64"
  unfolding uint_sub_u64
proof (rule neg_mod_2p64)
  show "uint a - uint b < 0" using assms by (simp add: word_less_def)
  have "uint b < 2 ^ 64" using uint_lt2p [of b] by simp
  moreover have "0 \<le> uint a" by simp
  ultimately show "- (2 ^ 64) \<le> uint a - uint b" by linarith
qed

text \<open>
  C10. The expected block number of the gap check is computed on wrapping 64-bit words:
  for a wall clock strictly before the genesis time (and a non-zero block time) the
  difference is \<open>wallClock - L2Time + 2^64\<close>, and the expected number is
  \<open>((wallClock - L2Time) mod 2^64) div BlockTime\<close>, a value that is returned, not an
  error; it is at least \<open>2^63 div BlockTime\<close> when the clock is no more than \<open>2^63\<close>
  seconds behind. Likewise the size \<open>end - start\<close> wraps to \<open>end - start + 2^64\<close>, a
  positive value, when \<open>end < start\<close>.
\<close>

theorem expectedL2Block_wraps:
  "(wallClock < genesis \<and> blockTime \<noteq> 0 \<longrightarrow>
      uint (wallClockGenesisDiff wallClock genesis) = uint wallClock - uint genesis + 2 ^ 64 \<and>
      (\<exists>e. expectedL2Block wallClock genesis blockTime = Some e \<and>
           uint e = ((uint wallClock - uint genesis) mod 2 ^ 64) div uint blockTime \<and>
           (uint genesis - uint wallClock \<le> 2 ^ 63 \<longrightarrow> 2 ^ 63 div uint blockTime \<le> uint e))) \<and>
   (end' < start \<longrightarrow>
      uint (gapSize start end') = uint end' - uint start + 2 ^ 64 \<and>
      uint (gapSize start end') = (uint end' - uint start) mod 2 ^ 64 \<and>
      gapSize start end' > 0)"
proof (intro conjI impI)
  assume h: "wallClock < genesis \<and> blockTime \<noteq> 0"
  then show d: "uint (wallClockGenesisDiff wallClock genesis)
             = uint wallClock - uint genesis + 2 ^ 64"
    by (simp add: wallClockGenesisDiff_def uint_sub_u64_less)
  have "0 < blockTime" using h by (simp add: word_greater_zero_iff)
  then have bt: "0 < uint blockTime" by (simp add: word_less_def word_greater_zero_iff [symmetric])
  have e: "expectedL2Block wallClock genesis blockTime
           = Some (wallClockGenesisDiff wallClock genesis div blockTime)"
    using h by (simp add: expectedL2Block_def)
  have u: "uint (wallClockGenesisDiff wallClock genesis div blockTime)
           = ((uint wallClock - uint genesis) mod 2 ^ 64) div uint blockTime"
    by (simp add: wallClockGenesisDiff_def uint_div uint_sub_u64)
  have big: "uint genesis - uint wallClock \<le> 2 ^ 63 \<longrightarrow>
      2 ^ 63 div uint blockTime \<le> uint (wallClockGenesisDiff wallClock genesis div blockTime)"
  proof
    assume "uint genesis - uint wallClock \<le> 2 ^ 63"
    then have "(2::int) ^ 63 \<le> uint (wallClockGenesisDiff wallClock genesis)"
      unfolding d by simp
    then have "2 ^ 63 div uint blockTime
               \<le> uint (wallClockGenesisDiff wallClock genesis) div uint blockTime"
      using bt by (rule zdiv_mono1)
    then show "2 ^ 63 div uint blockTime
               \<le> uint (wallClockGenesisDiff wallClock genesis div blockTime)"
      by (simp add: uint_div)
  qed
  show "\<exists>e. expectedL2Block wallClock genesis blockTime = Some e \<and>
           uint e = ((uint wallClock - uint genesis) mod 2 ^ 64) div uint blockTime \<and>
           (uint genesis - uint wallClock \<le> 2 ^ 63 \<longrightarrow> 2 ^ 63 div uint blockTime \<le> uint e)"
    using e u big by blast
next
  assume h: "end' < start"
  show "uint (gapSize start end') = (uint end' - uint start) mod 2 ^ 64"
    by (simp add: gapSize_def uint_sub_u64)
  show "uint (gapSize start end') = uint end' - uint start + 2 ^ 64"
    using h by (simp add: gapSize_def uint_sub_u64_less)
  show "gapSize start end' > 0"
    using h by (simp add: gapSize_def word_greater_zero_iff)
qed

theorem expectedL2Block_wraps_witness:
  "((10::u64) < 20 \<and> (2::u64) \<noteq> 0) \<and>
   uint (wallClockGenesisDiff 10 20) = 18446744073709551606 \<and>
   expectedL2Block 10 20 2 = Some 9223372036854775803 \<and>
   uint (20::u64) - uint (10::u64) \<le> 2 ^ 63 \<and>
   (2::int) ^ 63 div uint (2::u64) \<le> uint (9223372036854775803::u64) \<and>
   (3::u64) < 4 \<and> uint (gapSize 4 3) = 18446744073709551615"
  using expectedL2Block_wraps [of 10 20 2 3 4]
  by (simp add: expectedL2Block_def wallClockGenesisDiff_def)

section \<open>What the helpers of the loop leave alone\<close>

lemmas mock_defs = mockDriver_def mockFields_def eventLoopInit_def reqStep_def step_def trySend_def logf_def
  meter_def mockIfaces_def mockL2_def

lemma logf_fields [simp]:
  "stepReqCh (logf lv m s) = stepReqCh s" "delayedStepReq (logf lv m s) = delayedStepReq s"
  "afterTimers (logf lv m s) = afterTimers s" "stepAttempts (logf lv m s) = stepAttempts s"
  "derivation (logf lv m s) = derivation s" "driverConfig (logf lv m s) = driverConfig s"
  "metrics (logf lv m s) = metrics s" "l1State (logf lv m s) = l1State s"
  by (simp_all add: logf_def)

lemma meter_fields [simp]:
  "stepReqCh (meter x s) = stepReqCh s" "delayedStepReq (meter x s) = delayedStepReq s"
  "afterTimers (meter x s) = afterTimers s" "stepAttempts (meter x s) = stepAttempts s"
  "derivation (meter x s) = derivation s" "driverConfig (meter x s) = driverConfig s"
  "metrics (meter x s) = metrics s @ [x]" "l1State (meter x s) = l1State s"
  by (simp_all add: meter_def)

lemma plan_fields [simp]:
  "stepReqCh (planProposerAction I s) = stepReqCh s"
  "delayedStepReq (planProposerAction I s) = delayedStepReq s"
  "afterTimers (planProposerAction I s) = afterTimers s"
  "stepAttempts (planProposerAction I s) = stepAttempts s"
  "derivation (planProposerAction I s) = derivation s"
  "driverConfig (planProposerAction I s) = driverConfig s"
  "metrics (planProposerAction I s) = metrics s"
  "l1State (planProposerAction I s) = l1State s"
  by (simp_all add: planProposerAction_def Let_def split: prod.splits)

lemma prelude_fields [simp]:
  "stepReqCh (prelude I s) = stepReqCh s"
  "delayedStepReq (prelude I s) = delayedStepReq s"
  "afterTimers (prelude I s) = afterTimers s"
  "stepAttempts (prelude I s) = stepAttempts s"
  "derivation (prelude I s) = derivation s"
  "driverConfig (prelude I s) = driverConfig s"
  "metrics (prelude I s) = metrics s"
  "l1State (prelude I s) = l1State s"
  by (simp_all add: prelude_def)

lemma publish_fields [simp]:
  "stepReqCh (publish I pl s) = stepReqCh s"
  "delayedStepReq (publish I pl s) = delayedStepReq s"
  "afterTimers (publish I pl s) = afterTimers s"
  "stepAttempts (publish I pl s) = stepAttempts s"
  "derivation (publish I pl s) = derivation s"
  "driverConfig (publish I pl s) = driverConfig s"
  "l1State (publish I pl s) = l1State s"
  by (simp_all add: publish_def Let_def split: prod.splits option.splits)

lemma recvProposerTick_fields [simp]:
  "stepReqCh (recvProposerTick s) = stepReqCh s"
  "delayedStepReq (recvProposerTick s) = delayedStepReq s"
  "afterTimers (recvProposerTick s) = afterTimers s"
  "stepAttempts (recvProposerTick s) = stepAttempts s"
  "derivation (recvProposerTick s) = derivation s"
  "driverConfig (recvProposerTick s) = driverConfig s"
  "metrics (recvProposerTick s) = metrics s"
  "l1State (recvProposerTick s) = l1State s"
  by (simp_all add: recvProposerTick_def Let_def)

lemma recvStepReq_fields [simp]:
  "delayedStepReq (recvStepReq s) = delayedStepReq s"
  "afterTimers (recvStepReq s) = afterTimers s"
  "stepAttempts (recvStepReq s) = stepAttempts s"
  "derivation (recvStepReq s) = derivation s"
  "driverConfig (recvStepReq s) = driverConfig s"
  "metrics (recvStepReq s) = metrics s"
  "l1State (recvStepReq s) = l1State s"
  "chanCap (stepReqCh (recvStepReq s)) = chanCap (stepReqCh s)"
  by (simp_all add: recvStepReq_def)

lemma step_fields [simp]:
  "delayedStepReq (step s) = delayedStepReq s" "afterTimers (step s) = afterTimers s"
  "stepAttempts (step s) = stepAttempts s" "chanCap (stepReqCh (step s)) = chanCap (stepReqCh s)"
  by (simp_all add: step_def trySend_def)

lemma step_buf:
  "chanBuf (stepReqCh (step s)) =
     (if length (chanBuf (stepReqCh s)) < chanCap (stepReqCh s)
      then chanBuf (stepReqCh s) @ [()] else chanBuf (stepReqCh s))"
  by (simp add: step_def trySend_def)

lemma reqStep_fields [simp]:
  "stepAttempts (reqStep I s) = stepAttempts s"
  "chanCap (stepReqCh (reqStep I s)) = chanCap (stepReqCh s)"
  by (simp_all add: reqStep_def Let_def)

lemma stepInv_step: "stepInv s \<Longrightarrow> stepInv (step s)"
  by (auto simp: stepInv_def step_buf)

lemma stepInv_reqStep: "stepInv s \<Longrightarrow> stepInv (reqStep I s)"
  by (auto simp: reqStep_def Let_def stepInv_step) (auto simp: stepInv_def)

lemma stepInv_cong:
  "stepReqCh s' = stepReqCh s \<Longrightarrow> delayedStepReq s' = delayedStepReq s \<Longrightarrow>
   afterTimers s' = afterTimers s \<Longrightarrow> stepInv s' = stepInv s"
  by (simp add: stepInv_def)

lemma stepInv_prelude: "stepInv (prelude I s) = stepInv s"
  by (rule stepInv_cong) simp_all

lemma stepInv_onProposerTick:
  "stepInv s \<Longrightarrow> onProposerTick I (recvProposerTick s) = Continue s' r \<or>
     onProposerTick I (recvProposerTick s) = Return s' \<Longrightarrow> stepInv s'"
  by (auto simp: onProposerTick_def Let_def stepInv_def split: prod.splits option.splits)

lemma stepInv_onStepReq:
  assumes "stepInv s"
    and "onStepReq I (recvStepReq s) = Continue s' r \<or> onStepReq I (recvStepReq s) = Return s'"
  shows "stepInv s'"
proof -
  have r: "stepInv (recvStepReq s)"
    using assms(1) by (auto simp: stepInv_def recvStepReq_def)
  have u: "\<And>t d n. stepInv (t\<lparr>derivation := d, stepAttempts := n\<rparr>) = stepInv t"
    "\<And>t n. stepInv (t\<lparr>stepAttempts := n\<rparr>) = stepInv t"
    "\<And>t d. stepInv (t\<lparr>derivation := d\<rparr>) = stepInv t"
    "\<And>t lv m. stepInv (logf lv m t) = stepInv t"
    "\<And>t x. stepInv (meter x t) = stepInv t"
    by (simp_all add: stepInv_def)
  show ?thesis
    using assms(2) r
    by (auto simp: onStepReq_def Let_def u stepInv_reqStep
        split: prod.splits option.splits step_error.splits)
qed

lemma stepInv_handle:
  assumes "stepInv s" and "handle I s ev = Continue s' r \<or> handle I s ev = Return s'"
  shows "stepInv s'"
proof (cases ev)
  case ProposerTick
  then show ?thesis using assms stepInv_onProposerTick [of s I s' r] by simp
next
  case (AltSyncTick x2)
  then show ?thesis using assms
    by (auto simp: checkForGapInUnsafeQueue_def Let_def stepInv_def
        split: option.splits prod.splits if_splits)
next
  case (UnsafeL2PayloadSig x3)
  have "stepInv (meter (RecordReceivedUnsafePayload x3)
     ((logf LvlInfo ''Optimistically queueing unsafe L2 execution payload''
         (s\<lparr>snapshotLog := snapshotLog s @ [(LvlInfo, ''Rollup State Snapshot'')]\<rparr>))
       \<lparr>derivation := AddUnsafePayload I x3 (derivation s)\<rparr>))"
    using assms(1) by (simp add: stepInv_def)
  then show ?thesis using UnsafeL2PayloadSig assms(2)
    by (auto simp: Let_def dest: stepInv_reqStep)
next
  case (L1HeadSig x4)
  have "stepInv (s\<lparr>l1State := HandleNewL1HeadBlock I x4 (l1State s)\<rparr>)"
    using assms(1) by (simp add: stepInv_def)
  then show ?thesis using L1HeadSig assms(2) by (auto dest: stepInv_reqStep)
next
  case (L1SafeSig x5)
  then show ?thesis using assms by (auto simp add: stepInv_def)
next
  case (L1FinalizedSig x6)
  have "stepInv (s\<lparr>l1State := HandleNewL1FinalizedBlock I x6 (l1State s),
           derivation := Finalize I x6 (derivation s)\<rparr>)"
    using assms(1) by (simp add: stepInv_def)
  then show ?thesis using L1FinalizedSig assms(2) by (auto dest: stepInv_reqStep)
next
  case DelayedStepFired
  have "stepInv (s\<lparr>afterTimers := (case delayedStepReq s of None \<Rightarrow> afterTimers s
                                    | Some d \<Rightarrow> remove1 d (afterTimers s)),
                   delayedStepReq := None\<rparr>)"
    using assms(1) by (auto simp: stepInv_def split: option.splits)
  then show ?thesis using DelayedStepFired assms(2) by (auto simp: onDelayedStep_def stepInv_step)
next
  case StepReq
  then show ?thesis using assms stepInv_onStepReq [of s I s' r] by simp
next
  case StateReq
  then show ?thesis using assms by auto
next
  case ForceReset
  then show ?thesis using assms by (auto simp: onForceReset_def Let_def stepInv_def)
next
  case (StartProposerReq x11)
  then show ?thesis using assms
    by (auto simp: onStartProposer_def Let_def stepInv_def split: if_splits)
next
  case StopProposerReq
  then show ?thesis using assms
    by (auto simp: onStopProposer_def Let_def stepInv_def split: if_splits)
next
  case Done
  then show ?thesis using assms by auto
qed

section \<open>The loop of the gap check\<close>






section \<open>Starting and stopping the proposer\<close>



text \<open>
  C6. With the proposer disabled, \<^verbatim>\<open>StopProposer\<close> returns the "not enabled" error
  without sending to the loop. In the loop, a stop request with \<open>ProposerStopped\<close>
  already true is answered with the error "proposer not running" and leaves the state as
  it was; otherwise \<open>ProposerStopped\<close> is set and the reply carries the hash of the
  current unsafe L2 head and no error.
\<close>

theorem stopProposer_gating:
  "(\<not> ProposerEnabled (driverConfig s) \<longrightarrow>
      StopProposer ctxDone s = Returned (0, Some (ErrorsNew ''proposer is not enabled''))) \<and>
   (ProposerEnabled (driverConfig s) \<longrightarrow> StopProposer False s = Sent StopProposerReq) \<and>
   (ProposerStopped (driverConfig s) \<longrightarrow>
      handle I s StopProposerReq =
        Continue s (Some (StopProposerResp 0 (Some (ErrorsNew ''proposer not running''))))) \<and>
   (\<not> ProposerStopped (driverConfig s) \<longrightarrow>
      (\<exists>s'. handle I s StopProposerReq =
              Continue s' (Some (StopProposerResp (l2Hash (UnsafeL2Head I (derivation s))) None)) \<and>
            ProposerStopped (driverConfig s') \<and>
            s' = (logf LvlWarn ''Proposer has been stopped'' s)
                   \<lparr>driverConfig := (driverConfig s)\<lparr>ProposerStopped := True\<rparr>\<rparr>))"
  by (auto simp: StopProposer_def onStopProposer_def Let_def logf_def)

theorem stopProposer_gating_witness:
  "(ProposerEnabled (driverConfig (mockDriver False [] [] [] (4, 10) 128)) \<and>
    \<not> ProposerStopped (driverConfig (mockDriver False [] [] [] (4, 10) 128))) \<and>
   StopProposer False (mockDriver False [] [] [] (4, 10) 128) = Sent StopProposerReq \<and>
   (\<exists>s'. handle mockIfaces (mockDriver False [] [] [] (4, 10) 128) StopProposerReq
           = Continue s' (Some (StopProposerResp 7 None)) \<and> ProposerStopped (driverConfig s')) \<and>
   ProposerStopped (driverConfig (mockDriver True [] [] [] (4, 10) 128)) \<and>
   handle mockIfaces (mockDriver True [] [] [] (4, 10) 128) StopProposerReq
     = Continue (mockDriver True [] [] [] (4, 10) 128)
         (Some (StopProposerResp 0 (Some (ErrorsNew ''proposer not running'')))) \<and>
   \<not> ProposerEnabled (driverConfig ((mockDriver True [] [] [] (4, 10) 128)
        \<lparr>driverConfig := \<lparr>ProposerEnabled = False, ProposerStopped = True\<rparr>\<rparr>)) \<and>
   StopProposer False ((mockDriver True [] [] [] (4, 10) 128)
        \<lparr>driverConfig := \<lparr>ProposerEnabled = False, ProposerStopped = True\<rparr>\<rparr>)
     = Returned (0, Some (ErrorsNew ''proposer is not enabled''))"
proof -
  have e: "ProposerEnabled (driverConfig (mockDriver False [] [] [] (4, 10) 128))"
    and st: "ProposerStopped (driverConfig (mockDriver True [] [] [] (4, 10) 128))"
    and hd: "l2Hash (UnsafeL2Head mockIfaces (derivation (mockDriver False [] [] [] (4, 10) 128))) = 7"
    and run: "\<not> ProposerStopped (driverConfig (mockDriver False [] [] [] (4, 10) 128))"
    by (simp_all add: mock_defs)
  show ?thesis
    using e st hd run
      stopProposer_gating [where s = "mockDriver False [] [] [] (4, 10) 128"
        and I = mockIfaces and ctxDone = False]
      stopProposer_gating [where s = "mockDriver True [] [] [] (4, 10) 128"
        and I = mockIfaces and ctxDone = False]
      stopProposer_gating [where s = "(mockDriver True [] [] [] (4, 10) 128)
        \<lparr>driverConfig := \<lparr>ProposerEnabled = False, ProposerStopped = True\<rparr>\<rparr>"
        and I = mockIfaces and ctxDone = False]
    by auto
qed

section \<open>The proposer action\<close>

text \<open>
  C7. When the proposer tick is taken and \<^verbatim>\<open>RunNextProposerAction\<close> returns an error, the
  loop returns at once, whatever events would follow: the state it leaves is the one
  after the tick was received, with the proposer as the action left it and one error
  line logged. The derivation pipeline is not reset, nothing is published or metered,
  and the proposer action is not re-planned (the timer stays as the tick left it).
\<close>

theorem proposer_critical_error_terminates:
  assumes "ready (prelude I s) ProposerTick"
    and "RunNextProposerAction I (proposer (prelude I s)) = ((payload, Some e), p')"
  shows "\<exists>s'. runLoop I s (ProposerTick # evs) = Some (Return s') \<and>
              handle I (prelude I s) ProposerTick = Return s' \<and>
              s' = (logf LvlError ''Sequencer critical error'' (recvProposerTick (prelude I s)))
                     \<lparr>proposer := p'\<rparr> \<and>
              derivation s' = derivation (prelude I s) \<and>
              network s' = network (prelude I s) \<and>
              metrics s' = metrics (prelude I s) \<and>
              proposer s' = p' \<and>
              proposerTimer s' = proposerTimer (recvProposerTick (prelude I s))"
  using assms
  by (simp add: iteration_def onProposerTick_def recvProposerTick_def logf_def Let_def)

theorem proposer_critical_error_terminates_witness:
  "ready (prelude mockIfaces (mockDriver False [] [(None, Some (ErrorsNew ''boom''))] [] (4, 10) 128))
     ProposerTick \<and>
   (\<exists>s'. runLoop mockIfaces (mockDriver False [] [(None, Some (ErrorsNew ''boom''))] [] (4, 10) 128)
            [ProposerTick, ForceReset, StepReq] = Some (Return s') \<and>
         resetCount (derivation s') = 0 \<and> metrics s' = [] \<and> network s' = Some [] \<and>
         timerArmed (proposerTimer s') = None)"
proof -
  let ?s = "mockDriver False [] [(None, Some (ErrorsNew ''boom''))] [] (4, 10) 128"
  have r: "ready (prelude mockIfaces ?s) ProposerTick"
    by (simp add: mock_defs prelude_def proposerEligible_def planProposerAction_def l2ID_def
        zeroL1BlockRef_def)
  have run: "RunNextProposerAction mockIfaces (proposer (prelude mockIfaces ?s))
             = ((None, Some (ErrorsNew ''boom'')),
                \<lparr>buildingOnto = mockL2 6 2, planDelay = 2000, runScript = []\<rparr>)"
    by (simp add: mock_defs prelude_def proposerEligible_def planProposerAction_def l2ID_def
        zeroL1BlockRef_def)
  show ?thesis
    using r proposer_critical_error_terminates [OF r run, of "[ForceReset, StepReq]"]
    by (auto simp: mock_defs prelude_def proposerEligible_def planProposerAction_def l2ID_def
        zeroL1BlockRef_def recvProposerTick_def)
qed

text \<open>
  C8. When the proposer tick is taken, \<^verbatim>\<open>RunNextProposerAction\<close> returns a payload and no
  error, a network is present and publishing the payload fails, the loop logs a warning,
  records a publishing error, re-plans the proposer action and goes on with the next
  event. \<open>ProposerStopped\<close>, the derivation pipeline (with its unsafe L2 head), the L1
  state, \<open>stepAttempts\<close> and the step requests are as they were before the tick.
\<close>

theorem publish_error_not_fatal:
  assumes "ready (prelude I s) ProposerTick"
    and "RunNextProposerAction I (proposer (prelude I s)) = ((Some pl, None), p')"
    and "network (prelude I s) = Some n"
    and "PublishL2Payload I pl n = (Some e, n')"
  shows "\<exists>s'. handle I (prelude I s) ProposerTick = Continue s' None \<and>
              runLoop I s (ProposerTick # evs) = runLoop I s' evs \<and>
              s' = planProposerAction I
                     ((recvProposerTick (prelude I s))
                        \<lparr>proposer := p', network := Some n',
                         log := log s @ [(LvlWarn, ''failed to publish newly created block'')],
                         metrics := metrics s @ [RecordPublishingError]\<rparr>) \<and>
              driverConfig s' = driverConfig s \<and>
              derivation s' = derivation s \<and>
              UnsafeL2Head I (derivation s') = UnsafeL2Head I (derivation s) \<and>
              l1State s' = l1State s \<and>
              stepAttempts s' = stepAttempts s \<and>
              delayedStepReq s' = delayedStepReq s \<and>
              stepReqCh s' = stepReqCh s \<and>
              metrics s' = metrics s @ [RecordPublishingError] \<and>
              log s' = log s @ [(LvlWarn, ''failed to publish newly created block'')]"
proof -
  have lg: "log (prelude I s) = log s" by (simp add: prelude_def planProposerAction_def
        Let_def split: prod.splits)
  have nw: "network (recvProposerTick (prelude I s)) = Some n"
    using assms(3) by (simp add: recvProposerTick_def Let_def)
  have pr: "proposer (recvProposerTick (prelude I s)) = proposer (prelude I s)"
    by (simp add: recvProposerTick_def Let_def)
  have pb: "publish I (Some pl) ((recvProposerTick (prelude I s))\<lparr>proposer := p'\<rparr>) =
      (recvProposerTick (prelude I s))
        \<lparr>proposer := p', network := Some n',
         log := log s @ [(LvlWarn, ''failed to publish newly created block'')],
         metrics := metrics s @ [RecordPublishingError]\<rparr>"
    using nw assms(4) lg
    by (simp add: publish_def logf_def meter_def Let_def recvProposerTick_def)
  have h: "handle I (prelude I s) ProposerTick =
      Continue (planProposerAction I
                 ((recvProposerTick (prelude I s))
                    \<lparr>proposer := p', network := Some n',
                     log := log s @ [(LvlWarn, ''failed to publish newly created block'')],
                     metrics := metrics s @ [RecordPublishingError]\<rparr>)) None"
    using assms(2) pr pb by (simp add: onProposerTick_def Let_def)
  have l2: "\<And>t. log (planProposerAction I t) = log t"
    by (simp add: planProposerAction_def Let_def split: prod.splits)
  show ?thesis
    using h assms(1) by (simp add: iteration_def l2)
qed

theorem publish_error_not_fatal_witness:
  "ready (prelude mockIfaces
            (mockDriver False [] [(Some \<lparr>payloadHash = 9, payloadNumber = 4\<rparr>, None)]
               [Some (ErrorsNew ''unreachable peer'')] (4, 10) 128)) ProposerTick \<and>
   (\<exists>s'. runLoop mockIfaces
            (mockDriver False [] [(Some \<lparr>payloadHash = 9, payloadNumber = 4\<rparr>, None)]
               [Some (ErrorsNew ''unreachable peer'')] (4, 10) 128) [ProposerTick]
            = Some (Continue s' None) \<and>
         \<not> ProposerStopped (driverConfig s') \<and> l2Hash (unsafeHead (derivation s')) = 7 \<and>
         stepAttempts s' = 0 \<and> metrics s' = [RecordPublishingError] \<and>
         timerArmed (proposerTimer s') = Some 2000)"
proof -
  let ?s = "mockDriver False [] [(Some \<lparr>payloadHash = 9, payloadNumber = 4\<rparr>, None)]
              [Some (ErrorsNew ''unreachable peer'')] (4, 10) 128"
  let ?p = "\<lparr>buildingOnto = mockL2 6 2, planDelay = 2000, runScript = []\<rparr>"
  have r: "ready (prelude mockIfaces ?s) ProposerTick"
    by (simp add: mock_defs prelude_def proposerEligible_def planProposerAction_def l2ID_def
        zeroL1BlockRef_def)
  have run: "RunNextProposerAction mockIfaces (proposer (prelude mockIfaces ?s))
             = ((Some \<lparr>payloadHash = 9, payloadNumber = 4\<rparr>, None), ?p)"
    by (simp add: mock_defs prelude_def proposerEligible_def planProposerAction_def l2ID_def
        zeroL1BlockRef_def)
  have nw: "network (prelude mockIfaces ?s) = Some [Some (ErrorsNew ''unreachable peer'')]"
    by (simp add: mock_defs prelude_def proposerEligible_def planProposerAction_def l2ID_def
        zeroL1BlockRef_def)
  have pb: "PublishL2Payload mockIfaces \<lparr>payloadHash = 9, payloadNumber = 4\<rparr>
              [Some (ErrorsNew ''unreachable peer'')] = (Some (ErrorsNew ''unreachable peer''), [])"
    by (simp add: mockIfaces_def)
  have d: "\<not> ProposerStopped (driverConfig ?s)" "l2Hash (unsafeHead (derivation ?s)) = 7"
    "stepAttempts ?s = 0" "metrics ?s = []"
    by (simp_all add: mock_defs)
  show ?thesis
    using r d publish_error_not_fatal [OF r run nw pb, of "[]"]
    by (auto simp: planProposerAction_def mockIfaces_def Let_def recvProposerTick_def)
qed

section \<open>Resets of the pipeline\<close>

text \<open>
  C2 as stated fails: the scripted \<^verbatim>\<open>Step\<close> returns a reset error on the first step
  request of a fresh loop. Afterwards the pipeline has been reset once, \<open>stepAttempts\<close>
  is 1, the step-request channel is empty and no delayed step is scheduled.
\<close>

theorem reset_counterexample:
  "map_option stepAttempts (outcomeState
     (runLoop mockIfaces (mockDriver True [Some ErrReset] [] [] (4, 10) 128) [StepReq])) = Some 1 \<and>
   map_option (resetCount \<circ> derivation) (outcomeState
     (runLoop mockIfaces (mockDriver True [Some ErrReset] [] [] (4, 10) 128) [StepReq])) = Some 1 \<and>
   map_option (chanBuf \<circ> stepReqCh) (outcomeState
     (runLoop mockIfaces (mockDriver True [Some ErrReset] [] [] (4, 10) 128) [StepReq])) = Some [] \<and>
   map_option delayedStepReq (outcomeState
     (runLoop mockIfaces (mockDriver True [Some ErrReset] [] [] (4, 10) 128) [StepReq])) = Some None"
  by (simp add: mock_defs iteration_def prelude_def proposerEligible_def onStepReq_def
      recvStepReq_def Let_def)

text \<open>
  C2, amended. When \<^verbatim>\<open>Step\<close> returns a reset error, the loop resets the pipeline that the
  step left, records a pipeline reset and goes round again; \<open>stepAttempts\<close> is one more
  than before the step, and no step is requested: the request channel is as the receive
  left it and the delayed step is as before. On a force-reset request the loop resets the
  pipeline, records a pipeline reset and closes the caller's channel; \<open>stepAttempts\<close>,
  the request channel and the delayed step are unchanged.
\<close>

theorem reset_keeps_attempts:
  "(fst (Step I (derivation s)) = Some ErrReset \<longrightarrow>
      (\<exists>s'. handle I s StepReq = Continue s' None \<and>
            derivation s' = Reset I (snd (Step I (derivation s))) \<and>
            metrics s' = metrics s @ [SetDerivationIdle False, RecordPipelineReset] \<and>
            stepAttempts s' = stepAttempts s + 1 \<and>
            stepReqCh s' = stepReqCh (recvStepReq s) \<and>
            delayedStepReq s' = delayedStepReq s \<and>
            afterTimers s' = afterTimers s)) \<and>
   (\<exists>s'. handle I s ForceReset = Continue s' (Some ResetClosed) \<and>
         derivation s' = Reset I (derivation s) \<and>
         metrics s' = metrics s @ [RecordPipelineReset] \<and>
         stepAttempts s' = stepAttempts s \<and>
         stepReqCh s' = stepReqCh s \<and>
         delayedStepReq s' = delayedStepReq s \<and>
         afterTimers s' = afterTimers s)"
  by (auto simp: onStepReq_def onForceReset_def Let_def split: prod.splits)

theorem reset_keeps_attempts_witness:
  "fst (Step mockIfaces (derivation (mockDriver True [Some ErrReset] [] [] (4, 10) 128)))
     = Some ErrReset \<and>
   (\<exists>s'. handle mockIfaces (mockDriver True [Some ErrReset] [] [] (4, 10) 128) StepReq
           = Continue s' None \<and>
         resetCount (derivation s') = 1 \<and> stepAttempts s' = 1 \<and> chanBuf (stepReqCh s') = [] \<and>
         delayedStepReq s' = None)"
proof -
  let ?s = "mockDriver True [Some ErrReset] [] [] (4, 10) 128"
  have a: "fst (Step mockIfaces (derivation ?s)) = Some ErrReset"
    by (simp add: mock_defs)
  have b: "stepAttempts ?s = 0" "delayedStepReq ?s = None"
    "chanBuf (stepReqCh (recvStepReq ?s)) = []"
    "resetCount (Reset mockIfaces (snd (Step mockIfaces (derivation ?s)))) = 1"
    by (simp_all add: mock_defs recvStepReq_def)
  show ?thesis
    using a b reset_keeps_attempts [of mockIfaces ?s]
    by auto
qed

section \<open>The gap check on a tick\<close>




section \<open>Steps that are no failure\<close>

lemma calm_reqStep: "calm s \<Longrightarrow> reqStep I s = step s"
  by (simp add: calm_def reqStep_def)

lemma calm_step: "calm s \<Longrightarrow> calm (step s)"
  by (simp add: calm_def)

lemma calm_cong:
  "stepAttempts s' = stepAttempts s \<Longrightarrow> delayedStepReq s' = delayedStepReq s \<Longrightarrow>
   afterTimers s' = afterTimers s \<Longrightarrow> calm s' = calm s"
  by (simp add: calm_def)

lemma calm_prelude: "calm (prelude I s) = calm s"
  by (rule calm_cong) simp_all

lemma calm_onStepReq:
  assumes "calm s" and "benign (fst (Step I (derivation s)))"
    and "onStepReq I (recvStepReq s) = Continue s' r \<or> onStepReq I (recvStepReq s) = Return s'"
  shows "calm s'"
proof -
  have c: "\<And>t. delayedStepReq t = None \<Longrightarrow> afterTimers t = [] \<Longrightarrow>
      calm (reqStep I (t\<lparr>stepAttempts := 0\<rparr>))"
    by (simp add: calm_def reqStep_def)
  have f: "stepAttempts s = 0" "delayedStepReq s = None" "afterTimers s = []"
    using assms(1) by (simp_all add: calm_def)
  show ?thesis
    using assms(2,3)
    by (auto simp: onStepReq_def Let_def benign_def c f split: prod.splits)
       (simp_all add: calm_def f)
qed

lemma calm_handle:
  assumes "calm s" and "ev = StepReq \<longrightarrow> benign (fst (Step I (derivation s)))"
    and "handle I s ev = Continue s' r \<or> handle I s ev = Return s'"
  shows "calm s'"
proof (cases ev)
  case ProposerTick
  then show ?thesis using assms
    by (auto simp: onProposerTick_def Let_def calm_def split: prod.splits option.splits)
next
  case (AltSyncTick x2)
  then show ?thesis using assms
    by (auto simp: checkForGapInUnsafeQueue_def Let_def calm_def
        split: option.splits prod.splits if_splits)
next
  case (UnsafeL2PayloadSig x3)
  have "calm (meter (RecordReceivedUnsafePayload x3)
     ((logf LvlInfo ''Optimistically queueing unsafe L2 execution payload''
         (s\<lparr>snapshotLog := snapshotLog s @ [(LvlInfo, ''Rollup State Snapshot'')]\<rparr>))
       \<lparr>derivation := AddUnsafePayload I x3 (derivation s)\<rparr>))"
    using assms(1) by (simp add: calm_def)
  then show ?thesis using UnsafeL2PayloadSig assms(3)
    by (auto simp: Let_def calm_reqStep calm_step)
next
  case (L1HeadSig x4)
  have "calm (s\<lparr>l1State := HandleNewL1HeadBlock I x4 (l1State s)\<rparr>)"
    using assms(1) by (simp add: calm_def)
  then show ?thesis using L1HeadSig assms(3) by (auto simp: calm_reqStep calm_step)
next
  case (L1SafeSig x5)
  then show ?thesis using assms by (auto simp add: calm_def)
next
  case (L1FinalizedSig x6)
  have "calm (s\<lparr>l1State := HandleNewL1FinalizedBlock I x6 (l1State s),
           derivation := Finalize I x6 (derivation s)\<rparr>)"
    using assms(1) by (simp add: calm_def)
  then show ?thesis using L1FinalizedSig assms(3) by (auto simp: calm_reqStep calm_step)
next
  case DelayedStepFired
  then show ?thesis using assms(1,3) by (auto simp: onDelayedStep_def calm_def)
next
  case StepReq
  then show ?thesis using assms calm_onStepReq [of s I s' r] by simp
next
  case StateReq
  then show ?thesis using assms by auto
next
  case ForceReset
  then show ?thesis using assms by (auto simp: onForceReset_def Let_def calm_def)
next
  case (StartProposerReq x11)
  then show ?thesis using assms
    by (auto simp: onStartProposer_def Let_def calm_def split: if_splits)
next
  case StopProposerReq
  then show ?thesis using assms
    by (auto simp: onStopProposer_def Let_def calm_def split: if_splits)
next
  case Done
  then show ?thesis using assms by auto
qed

lemma calm_runLoop:
  "calm s \<Longrightarrow> \<forall>r \<in> set (stepResults I s evs). benign r \<Longrightarrow>
   outcomeState (runLoop I s evs) = Some s' \<Longrightarrow> calm s'"
proof (induction evs arbitrary: s)
  case Nil
  then show ?case by simp
next
  case (Cons ev evs)
  show ?case
  proof (cases "ready (prelude I s) ev")
    case False
    then show ?thesis using Cons.prems(3) by (simp add: iteration_def)
  next
    case True
    then have it: "iteration I s ev = Some (handle I (prelude I s) ev)"
      by (simp add: iteration_def)
    have cp: "calm (prelude I s)" using Cons.prems(1) by (simp add: calm_prelude)
    have bn: "ev = StepReq \<longrightarrow> benign (fst (Step I (derivation (prelude I s))))"
      using Cons.prems(2) True
      by (cases "handle I (prelude I s) ev") (auto simp: Let_def it)
    show ?thesis
    proof (cases "handle I (prelude I s) ev")
      case (Continue s1 r1)
      have c1: "calm s1" using calm_handle [OF cp bn] Continue by blast
      have b1: "\<forall>r \<in> set (stepResults I s1 evs). benign r"
        using Cons.prems(2) it Continue by (auto simp: Let_def)
      have o1: "outcomeState (runLoop I s1 evs) = Some s'"
        using Cons.prems(3) it Continue by simp
      show ?thesis by (rule Cons.IH [OF c1 b1 o1])
    next
      case (Return s1)
      have "calm s1" using calm_handle [OF cp bn] Return by blast
      then show ?thesis using Cons.prems(3) it Return by simp
    next
      case Panic
      then show ?thesis using Cons.prems(3) it by simp
    qed
  qed
qed

lemma calm_init: "calm (eventLoopInit I s)"
  by (simp add: calm_def eventLoopInit_def reqStep_def step_def trySend_def logf_def)

lemma stepInv_init: "stepInv (eventLoopInit I s)"
  by (simp add: stepInv_def eventLoopInit_def reqStep_def step_def trySend_def logf_def)

lemma stepInv_runLoop:
  "stepInv s \<Longrightarrow> outcomeState (runLoop I s evs) = Some s' \<Longrightarrow> stepInv s'"
proof (induction evs arbitrary: s)
  case Nil
  then show ?case by simp
next
  case (Cons ev evs)
  show ?case
  proof (cases "ready (prelude I s) ev")
    case False
    then show ?thesis using Cons.prems(2) by (simp add: iteration_def)
  next
    case True
    then have it: "iteration I s ev = Some (handle I (prelude I s) ev)"
      by (simp add: iteration_def)
    have cp: "stepInv (prelude I s)" using Cons.prems(1) by (simp add: stepInv_prelude)
    show ?thesis
    proof (cases "handle I (prelude I s) ev")
      case (Continue s1 r1)
      have c1: "stepInv s1" using stepInv_handle [OF cp] Continue by blast
      have o1: "outcomeState (runLoop I s1 evs) = Some s'"
        using Cons.prems(2) it Continue by simp
      show ?thesis by (rule Cons.IH [OF c1 o1])
    next
      case (Return s1)
      have "stepInv s1" using stepInv_handle [OF cp] Return by blast
      then show ?thesis using Cons.prems(2) it Return by simp
    next
      case Panic
      then show ?thesis using Cons.prems(2) it by simp
    qed
  qed
qed


text \<open>
  C4. When \<^verbatim>\<open>Step\<close> returns \<^verbatim>\<open>io.EOF\<close>, the loop sets \<open>stepAttempts\<close> to 0, marks the
  derivation idle and requests no step (the request channel is as the receive left it).
  When \<^verbatim>\<open>Step\<close> returns \<^verbatim>\<open>NotEnoughData\<close>, the loop sets \<open>stepAttempts\<close> to 0 and
  requests a step at once, by the non-blocking send. In every run of the loop from its
  start in which \<^verbatim>\<open>Step\<close> has returned only success, \<^verbatim>\<open>io.EOF\<close> and \<^verbatim>\<open>NotEnoughData\<close>,
  whatever the other events, \<open>stepAttempts\<close> is 0 and no delayed step is scheduled.
\<close>

theorem benign_steps_never_back_off:
  "(fst (Step I (derivation s)) = Some EOF \<longrightarrow>
      (\<exists>s'. handle I s StepReq = Continue s' None \<and> stepAttempts s' = 0 \<and>
            metrics s' = metrics s @ [SetDerivationIdle False, SetDerivationIdle True] \<and>
            stepReqCh s' = stepReqCh (recvStepReq s) \<and>
            delayedStepReq s' = delayedStepReq s \<and> afterTimers s' = afterTimers s)) \<and>
   (fst (Step I (derivation s)) = Some NotEnoughData \<longrightarrow>
      (\<exists>s'. handle I s StepReq = Continue s' None \<and> stepAttempts s' = 0 \<and>
            stepReqCh s' = stepReqCh (step (recvStepReq s)) \<and>
            delayedStepReq s' = delayedStepReq s \<and> afterTimers s' = afterTimers s)) \<and>
   (set (stepResults I (eventLoopInit I s0) evs) \<subseteq> {None, Some EOF, Some NotEnoughData} \<and>
    outcomeState (runLoop I (eventLoopInit I s0) evs) = Some s1 \<longrightarrow>
      stepAttempts s1 = 0 \<and> delayedStepReq s1 = None \<and> afterTimers s1 = [])"
proof -
  have A: "fst (Step I (derivation s)) = Some EOF \<longrightarrow>
      (\<exists>s'. handle I s StepReq = Continue s' None \<and> stepAttempts s' = 0 \<and>
            metrics s' = metrics s @ [SetDerivationIdle False, SetDerivationIdle True] \<and>
            stepReqCh s' = stepReqCh (recvStepReq s) \<and>
            delayedStepReq s' = delayedStepReq s \<and> afterTimers s' = afterTimers s)"
    by (auto simp: onStepReq_def Let_def split: prod.splits)
  have B: "fst (Step I (derivation s)) = Some NotEnoughData \<longrightarrow>
      (\<exists>s'. handle I s StepReq = Continue s' None \<and> stepAttempts s' = 0 \<and>
            stepReqCh s' = stepReqCh (step (recvStepReq s)) \<and>
            delayedStepReq s' = delayedStepReq s \<and> afterTimers s' = afterTimers s)"
    by (auto simp: onStepReq_def Let_def reqStep_def step_def trySend_def logf_def meter_def
        recvStepReq_def split: prod.splits)
  have C: "set (stepResults I (eventLoopInit I s0) evs) \<subseteq> {None, Some EOF, Some NotEnoughData} \<and>
      outcomeState (runLoop I (eventLoopInit I s0) evs) = Some s1 \<longrightarrow>
      stepAttempts s1 = 0 \<and> delayedStepReq s1 = None \<and> afterTimers s1 = []"
  proof
    assume a: "set (stepResults I (eventLoopInit I s0) evs) \<subseteq> {None, Some EOF, Some NotEnoughData} \<and>
      outcomeState (runLoop I (eventLoopInit I s0) evs) = Some s1"
    then have b: "\<forall>r \<in> set (stepResults I (eventLoopInit I s0) evs). benign r"
      by (auto simp: benign_def)
    have "calm s1" using calm_runLoop [OF calm_init b] a by blast
    then show "stepAttempts s1 = 0 \<and> delayedStepReq s1 = None \<and> afterTimers s1 = []"
      by (simp add: calm_def)
  qed
  show ?thesis using A B C by blast
qed

theorem benign_steps_never_back_off_witness:
  "fst (Step mockIfaces (derivation (mockDriver True [Some EOF] [] [] (4, 10) 128))) = Some EOF \<and>
   (\<exists>s'. handle mockIfaces (mockDriver True [Some EOF] [] [] (4, 10) 128) StepReq
           = Continue s' None \<and> stepAttempts s' = 0 \<and> chanBuf (stepReqCh s') = [] \<and>
         metrics s' = [SetDerivationIdle False, SetDerivationIdle True]) \<and>
   fst (Step mockIfaces (derivation (mockDriver True [Some NotEnoughData] [] [] (4, 10) 128)))
     = Some NotEnoughData \<and>
   (\<exists>s'. handle mockIfaces (mockDriver True [Some NotEnoughData] [] [] (4, 10) 128) StepReq
           = Continue s' None \<and> stepAttempts s' = 0 \<and> chanBuf (stepReqCh s') = [()] \<and>
         delayedStepReq s' = None) \<and>
   stepResults mockIfaces (mockDriver True [None, Some NotEnoughData] [] [] (4, 10) 128)
     [StepReq, StepReq, StepReq] = [None, Some NotEnoughData, Some EOF] \<and>
   (\<exists>s1. outcomeState (runLoop mockIfaces
            (mockDriver True [None, Some NotEnoughData] [] [] (4, 10) 128)
            [StepReq, StepReq, StepReq]) = Some s1 \<and>
         stepAttempts s1 = 0 \<and> delayedStepReq s1 = None \<and> afterTimers s1 = [])"
proof -
  let ?e = "mockDriver True [Some EOF] [] [] (4, 10) 128"
  let ?n = "mockDriver True [Some NotEnoughData] [] [] (4, 10) 128"
  let ?t = "mockDriver True [None, Some NotEnoughData] [] [] (4, 10) 128"
  have e: "fst (Step mockIfaces (derivation ?e)) = Some EOF"
    "metrics ?e = []" "chanBuf (stepReqCh (recvStepReq ?e)) = []"
    by (simp_all add: mock_defs recvStepReq_def)
  have n: "fst (Step mockIfaces (derivation ?n)) = Some NotEnoughData"
    "delayedStepReq ?n = None" "chanBuf (stepReqCh (step (recvStepReq ?n))) = [()]"
    by (simp_all add: mock_defs recvStepReq_def)
  have its: "\<And>s ev. ready (prelude mockIfaces s) ev \<Longrightarrow>
      iteration mockIfaces s ev = Some (handle mockIfaces (prelude mockIfaces s) ev)"
    by (simp add: iteration_def)
  have sr: "stepResults mockIfaces ?t [StepReq, StepReq, StepReq]
            = [None, Some NotEnoughData, Some EOF]"
    by (simp add: mock_defs iteration_def prelude_def proposerEligible_def onStepReq_def
        recvStepReq_def Let_def)
  have rl: "\<exists>s1. outcomeState (runLoop mockIfaces ?t [StepReq, StepReq, StepReq]) = Some s1"
    by (simp add: mock_defs iteration_def prelude_def proposerEligible_def onStepReq_def
        recvStepReq_def Let_def)
  then obtain s1 where s1: "outcomeState (runLoop mockIfaces ?t [StepReq, StepReq, StepReq]) = Some s1"
    by blast
  have c: "stepAttempts s1 = 0 \<and> delayedStepReq s1 = None \<and> afterTimers s1 = []"
    using benign_steps_never_back_off [of mockIfaces ?e
        "mockFields True [None, Some NotEnoughData] [] [] (4, 10) 128"
        "[StepReq, StepReq, StepReq]" s1, THEN conjunct2, THEN conjunct2] sr s1
    unfolding mockDriver_def by simp
  have E: "\<exists>s'. handle mockIfaces ?e StepReq = Continue s' None \<and> stepAttempts s' = 0 \<and>
      chanBuf (stepReqCh s') = [] \<and>
      metrics s' = [SetDerivationIdle False, SetDerivationIdle True]"
    using e benign_steps_never_back_off [of mockIfaces ?e, THEN conjunct1] by auto
  have N: "\<exists>s'. handle mockIfaces ?n StepReq = Continue s' None \<and> stepAttempts s' = 0 \<and>
      chanBuf (stepReqCh s') = [()] \<and> delayedStepReq s' = None"
    using n benign_steps_never_back_off [of mockIfaces ?n, THEN conjunct2, THEN conjunct1]
    by auto
  show ?thesis
    using e(1) n(1) E N sr s1 c by blast
qed

section \<open>The step-request discipline\<close>

lemma reqStep_None_iff:
  "delayedStepReq (reqStep I s) = None \<longleftrightarrow> delayedStepReq s = None \<and> stepAttempts s \<le> 0"
  by (auto simp: reqStep_def Let_def)

lemma pending_handle:
  assumes "delayedStepReq s' = None" and "ev \<noteq> DelayedStepFired"
    and "handle I s ev = Continue s' r \<or> handle I s ev = Return s'"
  shows "delayedStepReq s = None"
proof (cases ev)
  case ProposerTick
  then show ?thesis using assms
    by (auto simp: onProposerTick_def Let_def split: prod.splits option.splits)
next
  case (AltSyncTick x2)
  then show ?thesis using assms
    by (auto simp: checkForGapInUnsafeQueue_def Let_def
        split: option.splits prod.splits if_splits)
next
  case (UnsafeL2PayloadSig x3)
  then show ?thesis using assms by (auto simp: Let_def reqStep_None_iff)
next
  case (L1HeadSig x4)
  then show ?thesis using assms by (auto simp: reqStep_None_iff)
next
  case (L1SafeSig x5)
  then show ?thesis using assms by auto
next
  case (L1FinalizedSig x6)
  then show ?thesis using assms by (auto simp: reqStep_None_iff)
next
  case DelayedStepFired
  then show ?thesis using assms by simp
next
  case StepReq
  then show ?thesis using assms
    by (auto simp: onStepReq_def Let_def reqStep_None_iff
        split: prod.splits option.splits step_error.splits)
next
  case StateReq
  then show ?thesis using assms by auto
next
  case ForceReset
  then show ?thesis using assms by (auto simp: onForceReset_def Let_def)
next
  case (StartProposerReq x11)
  then show ?thesis using assms
    by (auto simp: onStartProposer_def Let_def split: if_splits)
next
  case StopProposerReq
  then show ?thesis using assms
    by (auto simp: onStopProposer_def Let_def split: if_splits)
next
  case Done
  then show ?thesis using assms by auto
qed

text \<open>
  C5. The step-request channel is made with capacity 1. \<^verbatim>\<open>step\<close> queues a request when
  the channel has room and drops it otherwise. \<^verbatim>\<open>reqStep\<close> with \<open>stepAttempts = 0\<close> is
  \<^verbatim>\<open>step\<close>; with \<open>stepAttempts > 0\<close> and no delayed step pending it schedules one timer
  with the delay \<open>BackoffDuration stepAttempts\<close> and leaves the channel alone; with one
  pending it only logs. In every state that a run of the loop from its start reaches, at
  most one timer is running, it is the one behind \<open>delayedStepReq\<close>, and the channel
  holds at most one request. A pending delayed step stays pending through the top of the
  loop and through every case other than the firing of the delayed step, and that case
  clears it and makes an immediate request.
\<close>

theorem step_request_discipline:
  "chanCap (stepReqCh (eventLoopInit I s0)) = 1 \<and>
   (length (chanBuf (stepReqCh s)) < chanCap (stepReqCh s) \<longrightarrow>
      step s = s\<lparr>stepReqCh := (stepReqCh s)\<lparr>chanBuf := chanBuf (stepReqCh s) @ [()]\<rparr>\<rparr>) \<and>
   (\<not> length (chanBuf (stepReqCh s)) < chanCap (stepReqCh s) \<longrightarrow> step s = s) \<and>
   (stepAttempts s = 0 \<longrightarrow> reqStep I s = step s) \<and>
   (stepAttempts s > 0 \<and> delayedStepReq s = None \<longrightarrow>
      delayedStepReq (reqStep I s) = Some (BackoffDuration I (stepAttempts s)) \<and>
      afterTimers (reqStep I s) = afterTimers s @ [BackoffDuration I (stepAttempts s)] \<and>
      stepReqCh (reqStep I s) = stepReqCh s) \<and>
   (stepAttempts s > 0 \<and> delayedStepReq s \<noteq> None \<longrightarrow>
      reqStep I s =
        logf LvlDebug
          ''ignoring step request, already scheduled re-attempt after previous failure'' s) \<and>
   (outcomeState (runLoop I (eventLoopInit I s0) evs) = Some s1 \<longrightarrow>
      length (afterTimers s1) \<le> 1 \<and>
      afterTimers s1 = (case delayedStepReq s1 of None \<Rightarrow> [] | Some d \<Rightarrow> [d]) \<and>
      chanCap (stepReqCh s1) = 1 \<and> length (chanBuf (stepReqCh s1)) \<le> 1) \<and>
   (delayedStepReq s \<noteq> None \<and> ev \<noteq> DelayedStepFired \<and>
    (handle I s ev = Continue s' r \<or> handle I s ev = Return s') \<longrightarrow>
      delayedStepReq s' \<noteq> None) \<and>
   delayedStepReq (prelude I s) = delayedStepReq s \<and>
   handle I s DelayedStepFired =
     Continue (step (s\<lparr>afterTimers := (case delayedStepReq s of
                                         None \<Rightarrow> afterTimers s
                                       | Some d \<Rightarrow> remove1 d (afterTimers s)),
                       delayedStepReq := None\<rparr>)) None \<and>
   delayedStepReq (step (s\<lparr>afterTimers := (case delayedStepReq s of
                                         None \<Rightarrow> afterTimers s
                                       | Some d \<Rightarrow> remove1 d (afterTimers s)),
                       delayedStepReq := None\<rparr>)) = None"
proof -
  have A: "chanCap (stepReqCh (eventLoopInit I s0)) = 1"
    using stepInv_init [of I s0] by (simp add: stepInv_def)
  have B: "length (chanBuf (stepReqCh s)) < chanCap (stepReqCh s) \<longrightarrow>
      step s = s\<lparr>stepReqCh := (stepReqCh s)\<lparr>chanBuf := chanBuf (stepReqCh s) @ [()]\<rparr>\<rparr>"
    "\<not> length (chanBuf (stepReqCh s)) < chanCap (stepReqCh s) \<longrightarrow> step s = s"
    by (simp_all add: step_def trySend_def)
  have C: "stepAttempts s = 0 \<longrightarrow> reqStep I s = step s"
    by (simp add: reqStep_def)
  have D: "stepAttempts s > 0 \<and> delayedStepReq s = None \<longrightarrow>
      delayedStepReq (reqStep I s) = Some (BackoffDuration I (stepAttempts s)) \<and>
      afterTimers (reqStep I s) = afterTimers s @ [BackoffDuration I (stepAttempts s)] \<and>
      stepReqCh (reqStep I s) = stepReqCh s"
    by (simp add: reqStep_def Let_def)
  have E: "stepAttempts s > 0 \<and> delayedStepReq s \<noteq> None \<longrightarrow>
      reqStep I s =
        logf LvlDebug
          ''ignoring step request, already scheduled re-attempt after previous failure'' s"
    by (auto simp: reqStep_def)
  have F: "outcomeState (runLoop I (eventLoopInit I s0) evs) = Some s1 \<longrightarrow>
      length (afterTimers s1) \<le> 1 \<and>
      afterTimers s1 = (case delayedStepReq s1 of None \<Rightarrow> [] | Some d \<Rightarrow> [d]) \<and>
      chanCap (stepReqCh s1) = 1 \<and> length (chanBuf (stepReqCh s1)) \<le> 1"
  proof
    assume "outcomeState (runLoop I (eventLoopInit I s0) evs) = Some s1"
    then have "stepInv s1" by (rule stepInv_runLoop [OF stepInv_init])
    then show "length (afterTimers s1) \<le> 1 \<and>
      afterTimers s1 = (case delayedStepReq s1 of None \<Rightarrow> [] | Some d \<Rightarrow> [d]) \<and>
      chanCap (stepReqCh s1) = 1 \<and> length (chanBuf (stepReqCh s1)) \<le> 1"
      by (auto simp: stepInv_def split: option.splits)
  qed
  have G: "delayedStepReq s \<noteq> None \<and> ev \<noteq> DelayedStepFired \<and>
    (handle I s ev = Continue s' r \<or> handle I s ev = Return s') \<longrightarrow>
      delayedStepReq s' \<noteq> None"
    using pending_handle [of s' ev I s r] by (cases "delayedStepReq s' = None") auto
  have H: "delayedStepReq (prelude I s) = delayedStepReq s" by simp
  have J: "handle I s DelayedStepFired =
     Continue (step (s\<lparr>afterTimers := (case delayedStepReq s of
                                         None \<Rightarrow> afterTimers s
                                       | Some d \<Rightarrow> remove1 d (afterTimers s)),
                       delayedStepReq := None\<rparr>)) None"
    by (simp add: onDelayedStep_def)
  have K: "delayedStepReq (step (s\<lparr>afterTimers := (case delayedStepReq s of
                                         None \<Rightarrow> afterTimers s
                                       | Some d \<Rightarrow> remove1 d (afterTimers s)),
                       delayedStepReq := None\<rparr>)) = None"
    by simp
  show ?thesis using A B C D E F G H J K by blast
qed

theorem step_request_discipline_witness:
  "step (mockDriver True [] [] [] (4, 10) 128) = mockDriver True [] [] [] (4, 10) 128 \<and>
   chanBuf (stepReqCh (step (recvStepReq (mockDriver True [] [] [] (4, 10) 128)))) = [()] \<and>
   reqStep mockIfaces (mockDriver True [] [] [] (4, 10) 128)
     = step (mockDriver True [] [] [] (4, 10) 128) \<and>
   delayedStepReq (reqStep mockIfaces ((mockDriver True [] [] [] (4, 10) 128)\<lparr>stepAttempts := 2\<rparr>))
     = Some 200 \<and>
   reqStep mockIfaces ((mockDriver True [] [] [] (4, 10) 128)
       \<lparr>delayedStepReq := Some 200, afterTimers := [200], stepAttempts := 2\<rparr>)
     = logf LvlDebug
         ''ignoring step request, already scheduled re-attempt after previous failure''
         ((mockDriver True [] [] [] (4, 10) 128)
            \<lparr>delayedStepReq := Some 200, afterTimers := [200], stepAttempts := 2\<rparr>) \<and>
   (\<exists>s1. outcomeState (runLoop mockIfaces
            (mockDriver True [Some ErrTemporary, Some ErrTemporary] [] [] (4, 10) 128)
            [StepReq, L1HeadSig zeroL1BlockRef, DelayedStepFired, StepReq]) = Some s1 \<and>
         delayedStepReq s1 = Some 200 \<and> afterTimers s1 = [200] \<and> stepAttempts s1 = 2) \<and>
   (\<exists>s'. handle mockIfaces ((mockDriver True [] [] [] (4, 10) 128)
              \<lparr>delayedStepReq := Some 200, afterTimers := [200], stepAttempts := 2\<rparr>)
            (L1HeadSig zeroL1BlockRef) = Continue s' None \<and> delayedStepReq s' \<noteq> None)"
proof -
  let ?s = "mockDriver True [] [] [] (4, 10) 128"
  let ?p = "?s\<lparr>delayedStepReq := Some 200, afterTimers := [200], stepAttempts := 2\<rparr>"
  let ?t = "mockDriver True [Some ErrTemporary, Some ErrTemporary] [] [] (4, 10) 128"
  let ?evs = "[StepReq, L1HeadSig zeroL1BlockRef, DelayedStepFired, StepReq]"
  have full: "\<not> length (chanBuf (stepReqCh ?s)) < chanCap (stepReqCh ?s)"
    and att: "stepAttempts ?s = 0"
    and empty: "length (chanBuf (stepReqCh (recvStepReq ?s))) < chanCap (stepReqCh (recvStepReq ?s))"
      "chanBuf (stepReqCh (recvStepReq ?s)) = []"
    and two: "stepAttempts (?s\<lparr>stepAttempts := 2\<rparr>) > 0 \<and> delayedStepReq (?s\<lparr>stepAttempts := 2\<rparr>) = None"
      "BackoffDuration mockIfaces (stepAttempts (?s\<lparr>stepAttempts := 2\<rparr>)) = 200"
    and pend: "stepAttempts ?p > 0 \<and> delayedStepReq ?p \<noteq> None"
    by (simp_all add: mock_defs recvStepReq_def)
  note d = step_request_discipline
  have 1: "step ?s = ?s"
    using full d [of mockIfaces _ ?s, THEN conjunct2, THEN conjunct2, THEN conjunct1] by blast
  have 2: "chanBuf (stepReqCh (step (recvStepReq ?s))) = [()]"
    using empty d [of mockIfaces _ "recvStepReq ?s", THEN conjunct2, THEN conjunct1] by simp
  have 3: "reqStep mockIfaces ?s = step ?s"
    using att d [of mockIfaces _ ?s, THEN conjunct2, THEN conjunct2, THEN conjunct2,
        THEN conjunct1] by blast
  have 4: "delayedStepReq (reqStep mockIfaces (?s\<lparr>stepAttempts := 2\<rparr>)) = Some 200"
    using two d [of mockIfaces _ "?s\<lparr>stepAttempts := 2\<rparr>", THEN conjunct2, THEN conjunct2,
        THEN conjunct2, THEN conjunct2, THEN conjunct1] by simp
  have 5: "reqStep mockIfaces ?p = logf LvlDebug
         ''ignoring step request, already scheduled re-attempt after previous failure'' ?p"
    using pend d [of mockIfaces _ ?p, THEN conjunct2, THEN conjunct2,
        THEN conjunct2, THEN conjunct2, THEN conjunct2, THEN conjunct1] by blast
  have rl: "\<exists>s1. outcomeState (runLoop mockIfaces ?t ?evs) = Some s1 \<and>
      delayedStepReq s1 = Some 200 \<and> stepAttempts s1 = 2"
    by (simp add: mock_defs iteration_def prelude_def proposerEligible_def onStepReq_def
        recvStepReq_def onDelayedStep_def Let_def zeroL1BlockRef_def)
  then obtain s1 where s1: "outcomeState (runLoop mockIfaces ?t ?evs) = Some s1"
    "delayedStepReq s1 = Some 200" "stepAttempts s1 = 2" by blast
  have "afterTimers s1 = (case delayedStepReq s1 of None \<Rightarrow> [] | Some d \<Rightarrow> [d])"
    using s1(1) d [of mockIfaces
        "mockFields True [Some ErrTemporary, Some ErrTemporary] [] [] (4, 10) 128" _ ?evs s1,
        THEN conjunct2, THEN conjunct2, THEN conjunct2, THEN conjunct2, THEN conjunct2,
        THEN conjunct2, THEN conjunct1]
    unfolding mockDriver_def by blast
  then have 6: "\<exists>s1. outcomeState (runLoop mockIfaces ?t ?evs) = Some s1 \<and>
         delayedStepReq s1 = Some 200 \<and> afterTimers s1 = [200] \<and> stepAttempts s1 = 2"
    using s1 by auto
  have h: "\<exists>s'. handle mockIfaces ?p (L1HeadSig zeroL1BlockRef) = Continue s' None"
    by simp
  then obtain s' where s': "handle mockIfaces ?p (L1HeadSig zeroL1BlockRef) = Continue s' None"
    by blast
  have "delayedStepReq s' \<noteq> None"
    using pend s' d [of mockIfaces _ ?p _ _ "L1HeadSig zeroL1BlockRef" s' None,
        THEN conjunct2, THEN conjunct2, THEN conjunct2, THEN conjunct2, THEN conjunct2,
        THEN conjunct2, THEN conjunct2, THEN conjunct1]
    by blast
  then have 7: "\<exists>s'. handle mockIfaces ?p (L1HeadSig zeroL1BlockRef) = Continue s' None \<and>
      delayedStepReq s' \<noteq> None"
    using s' by blast
  show ?thesis using 1 2 3 4 5 6 7 by blast
qed


section \<open>The checks of the configuration\<close>



end
